theory Spec2Isabelle
  imports Main "HOL-Library.Word"
begin

section \<open>The tracing controller: data model\<close>

text \<open>
  A shallow embedding of \<^verbatim>\<open>controller/main.go\<close>: the custom resource
  \<^verbatim>\<open>TracingConfig\<close>, the objects the reconciler reads and writes, and the function
  \<^verbatim>\<open>Reconcile\<close>.

  Two things the controller uses are not part of the repository and are taken as
  parameters: the rendering of a \<^verbatim>\<open>float64\<close> by \<^verbatim>\<open>fmt.Sprintf("%.2f", _)\<close> and
  \<^verbatim>\<open>metav1.LabelSelectorAsSelector\<close>. The type of sampling rates is the type variable
  \<open>'f\<close>, the type of label selectors as the user writes them is \<open>'sel\<close>.
\<close>

type_synonym labels = "(string \<times> string) list"

text \<open>Objects are addressed by namespace and name.\<close>

type_synonym object_key = "string \<times> string"

text \<open>
  A Go \<^verbatim>\<open>map[string]string\<close> that the code iterates over (\<^verbatim>\<open>Attributes\<close>) is an
  association list with distinct keys: the list gives the entries in the order in which
  one particular \<^verbatim>\<open>range\<close> loop visits them.
\<close>

record ('f, 'sel) TracingConfigSpec =
  Enabled :: bool
  SamplingRate :: 'f
  Endpoint :: string
  ServiceName :: string
  Namespace :: string
  Selector :: "'sel option"
  Headers :: "(string \<times> string) list"
  Attributes :: "(string \<times> string) list"
  ExportTimeout :: string
  BatchTimeout :: string
  MaxBatchSize :: "64 word"

record TracingConfigStatus =
  Phase :: string
  Message :: string
  AppliedAt :: "nat option"
  TargetPods :: "string list"

record ('f, 'sel) TracingConfig =
  tc_namespace :: string
  tc_name :: string
  Spec :: "('f, 'sel) TracingConfigSpec"
  Status :: TracingConfigStatus

record ConfigMap =
  cm_namespace :: string
  cm_name :: string
  cm_labels :: labels
  Data :: "string \<rightharpoonup> string"

record Pod =
  pod_namespace :: string
  pod_name :: string
  pod_labels :: labels

text \<open>
  \<^verbatim>\<open>corev1.EnvFromSource\<close>: an optional prefix and a reference to a config map or to a
  secret, each a name with an \<^verbatim>\<open>Optional\<close> flag.
\<close>

record EnvSource =
  RefName :: string
  Optional :: "bool option"

record EnvFromSource =
  Prefix :: string
  ConfigMapRef :: "EnvSource option"
  SecretRef :: "EnvSource option"

record Container =
  c_name :: string
  c_image :: string
  EnvFrom :: "EnvFromSource list"

record Deployment =
  d_namespace :: string
  d_name :: string
  d_labels :: labels
  Containers :: "Container list"

section \<open>Formatting\<close>

text \<open>\<^verbatim>\<open>fmt.Sprintf("%d", n)\<close>: the decimal digits, most significant first, no padding.\<close>

definition digit_char :: "nat \<Rightarrow> char" where
  "digit_char d = char_of (48 + d mod 10)"

fun decimal :: "nat \<Rightarrow> string" where
  "decimal n = (if n < 10 then [digit_char n] else decimal (n div 10) @ [digit_char (n mod 10)])"

declare decimal.simps [simp del]

definition Sprintf_d :: "int \<Rightarrow> string" where
  "Sprintf_d i = (if i < 0 then CHR ''-'' # decimal (nat (- i)) else decimal (nat i))"

text \<open>Reading a digit string back, to say what the digits of \<open>decimal\<close> denote.\<close>

definition is_digit :: "char \<Rightarrow> bool" where
  "is_digit c = (48 \<le> (of_char c :: nat) \<and> (of_char c :: nat) \<le> 57)"

definition digit_val :: "char \<Rightarrow> nat" where
  "digit_val c = of_char c - 48"

definition undecimal :: "string \<Rightarrow> nat" where
  "undecimal s = foldl (\<lambda>a c. 10 * a + digit_val c) 0 s"

section \<open>The desired config payload (lines 209-231)\<close>

text \<open>
  The \<^verbatim>\<open>Data\<close> of the config map literal, the three optional keys, and the loop over
  \<^verbatim>\<open>Spec.Attributes\<close>. \<open>fmt2f\<close> stands for \<^verbatim>\<open>fmt.Sprintf("%.2f", _)\<close>.
\<close>

definition add_attributes ::
    "(string \<times> string) list \<Rightarrow> (string \<rightharpoonup> string) \<Rightarrow> (string \<rightharpoonup> string)" where
  "add_attributes attrs d =
     fold (\<lambda>(key, value) d. d(''OTEL_RESOURCE_ATTRIBUTES_'' @ key \<mapsto> value)) attrs d"

definition config_data ::
    "('f \<Rightarrow> string) \<Rightarrow> ('f, 'sel) TracingConfigSpec \<Rightarrow> (string \<rightharpoonup> string)" where
  "config_data fmt2f s =
     (let d = [''OTEL_EXPORTER_OTLP_ENDPOINT'' \<mapsto> Endpoint s,
               ''OTEL_SERVICE_NAME'' \<mapsto> ServiceName s,
               ''OTEL_TRACES_SAMPLER'' \<mapsto> ''traceidratio'',
               ''OTEL_TRACES_SAMPLER_ARG'' \<mapsto> fmt2f (SamplingRate s)];
          d = (if ExportTimeout s \<noteq> [] then d(''OTEL_EXPORTER_OTLP_TIMEOUT'' \<mapsto> ExportTimeout s)
               else d);
          d = (if BatchTimeout s \<noteq> [] then d(''OTEL_BSP_SCHEDULE_DELAY'' \<mapsto> BatchTimeout s)
               else d);
          d = (if 0 < sint (MaxBatchSize s)
               then d(''OTEL_BSP_MAX_EXPORT_BATCH_SIZE'' \<mapsto> Sprintf_d (sint (MaxBatchSize s)))
               else d)
      in add_attributes (Attributes s) d)"

section \<open>The resource store\<close>

text \<open>
  The controller-runtime client and the API server behind it are outside the repository.
  They are modelled as a store of object lists on which a pass runs without interference:
  \<^verbatim>\<open>Get\<close> finds an object by namespace and name, \<^verbatim>\<open>List\<close> filters by namespace and
  label selector, \<^verbatim>\<open>Create\<close> adds an object, \<^verbatim>\<open>Update\<close> replaces the object of the same
  namespace and name, and \<^verbatim>\<open>Status().Update\<close> replaces the status only. Any call may
  also fail: a fault plan says, for every call site of a pass, whether the call fails and
  with which message. A failed call leaves the store as it was. Every call is recorded,
  in order, in the trace.
\<close>

datatype go_error = NotFound | StoreError string | InvalidSelector string

text \<open>The text of an error, as \<^verbatim>\<open>%v\<close> prints it.\<close>

fun error_string :: "go_error \<Rightarrow> string" where
  "error_string NotFound = ''not found''"
| "error_string (StoreError m) = m"
| "error_string (InvalidSelector m) = m"

definition IgnoreNotFound :: "go_error \<Rightarrow> go_error option" where
  "IgnoreNotFound err = (if err = NotFound then None else Some err)"

text \<open>
  The call sites of \<^verbatim>\<open>Reconcile\<close>. The three status updates are told apart by the phase
  they write, the deployment updates by the deployment's name.
\<close>

datatype call =
    Call_Get_TracingConfig
  | Call_Status_Update string
  | Call_List_Pods
  | Call_Get_ConfigMap
  | Call_Create_ConfigMap
  | Call_Update_ConfigMap
  | Call_List_Deployments
  | Call_Update_Deployment string

type_synonym faults = "call \<Rightarrow> string option"

definition no_faults :: faults where
  "no_faults = (\<lambda>c. None)"

text \<open>A call as the store sees it; the flag of a write says whether it succeeded.\<close>

datatype event =
    Ev_Get_TracingConfig object_key
  | Ev_Status_Update object_key TracingConfigStatus bool
  | Ev_List_Pods string
  | Ev_Get_ConfigMap object_key
  | Ev_Create_ConfigMap ConfigMap bool
  | Ev_Update_ConfigMap ConfigMap bool
  | Ev_List_Deployments string
  | Ev_Update_Deployment Deployment bool

record ('f, 'sel) world =
  tracingconfigs :: "('f, 'sel) TracingConfig list"
  configmaps :: "ConfigMap list"
  pods :: "Pod list"
  deployments :: "Deployment list"
  trace :: "event list"

definition traced :: "event \<Rightarrow> ('f, 'sel) world \<Rightarrow> ('f, 'sel) world" where
  "traced e w = w\<lparr>trace := trace w @ [e]\<rparr>"

definition tc_key :: "('f, 'sel) TracingConfig \<Rightarrow> object_key" where
  "tc_key t = (tc_namespace t, tc_name t)"

definition cm_key :: "ConfigMap \<Rightarrow> object_key" where
  "cm_key c = (cm_namespace c, cm_name c)"

definition d_key :: "Deployment \<Rightarrow> object_key" where
  "d_key d = (d_namespace d, d_name d)"

text \<open>
  \<^verbatim>\<open>listOpts\<close>: \<^verbatim>\<open>client.InNamespace\<close> (the empty namespace lists every namespace) and,
  when the policy has a selector, \<^verbatim>\<open>client.MatchingLabelsSelector\<close>. A compiled
  \<^verbatim>\<open>labels.Selector\<close> is the predicate it decides.
\<close>

type_synonym list_opts = "string \<times> (labels \<Rightarrow> bool) option"

definition in_namespace :: "string \<Rightarrow> string \<Rightarrow> bool" where
  "in_namespace ns obj_ns = (ns = [] \<or> obj_ns = ns)"

definition selects :: "(labels \<Rightarrow> bool) option \<Rightarrow> labels \<Rightarrow> bool" where
  "selects sel ls = (case sel of None \<Rightarrow> True | Some p \<Rightarrow> p ls)"

definition listed :: "list_opts \<Rightarrow> string \<Rightarrow> labels \<Rightarrow> bool" where
  "listed opts ns ls = (in_namespace (fst opts) ns \<and> selects (snd opts) ls)"

definition Get_TracingConfig ::
    "faults \<Rightarrow> object_key \<Rightarrow> ('f, 'sel) world
      \<Rightarrow> (go_error + ('f, 'sel) TracingConfig) \<times> ('f, 'sel) world" where
  "Get_TracingConfig flt key w =
     ((case flt Call_Get_TracingConfig of
         Some m \<Rightarrow> Inl (StoreError m)
       | None \<Rightarrow>
           (case find (\<lambda>t. tc_key t = key) (tracingconfigs w) of
              None \<Rightarrow> Inl NotFound
            | Some t \<Rightarrow> Inr t)),
      traced (Ev_Get_TracingConfig key) w)"

definition put_status ::
    "('f, 'sel) TracingConfig \<Rightarrow> ('f, 'sel) TracingConfig list \<Rightarrow> ('f, 'sel) TracingConfig list" where
  "put_status tc ts = map (\<lambda>t. if tc_key t = tc_key tc then t\<lparr>Status := Status tc\<rparr> else t) ts"

definition Status_Update ::
    "faults \<Rightarrow> ('f, 'sel) TracingConfig \<Rightarrow> ('f, 'sel) world
      \<Rightarrow> go_error option \<times> ('f, 'sel) world" where
  "Status_Update flt tc w =
     (case flt (Call_Status_Update (Phase (Status tc))) of
        Some m \<Rightarrow> (Some (StoreError m), traced (Ev_Status_Update (tc_key tc) (Status tc) False) w)
      | None \<Rightarrow>
          (None, traced (Ev_Status_Update (tc_key tc) (Status tc) True)
                   (w\<lparr>tracingconfigs := put_status tc (tracingconfigs w)\<rparr>)))"

definition List_Pods ::
    "faults \<Rightarrow> list_opts \<Rightarrow> ('f, 'sel) world \<Rightarrow> (go_error + Pod list) \<times> ('f, 'sel) world" where
  "List_Pods flt opts w =
     ((case flt Call_List_Pods of
         Some m \<Rightarrow> Inl (StoreError m)
       | None \<Rightarrow> Inr (filter (\<lambda>p. listed opts (pod_namespace p) (pod_labels p)) (pods w))),
      traced (Ev_List_Pods (fst opts)) w)"

definition Get_ConfigMap ::
    "faults \<Rightarrow> object_key \<Rightarrow> ('f, 'sel) world \<Rightarrow> (go_error + ConfigMap) \<times> ('f, 'sel) world" where
  "Get_ConfigMap flt key w =
     ((case flt Call_Get_ConfigMap of
         Some m \<Rightarrow> Inl (StoreError m)
       | None \<Rightarrow>
           (case find (\<lambda>c. cm_key c = key) (configmaps w) of
              None \<Rightarrow> Inl NotFound
            | Some c \<Rightarrow> Inr c)),
      traced (Ev_Get_ConfigMap key) w)"

definition Create_ConfigMap ::
    "faults \<Rightarrow> ConfigMap \<Rightarrow> ('f, 'sel) world \<Rightarrow> go_error option \<times> ('f, 'sel) world" where
  "Create_ConfigMap flt cm w =
     (case flt Call_Create_ConfigMap of
        Some m \<Rightarrow> (Some (StoreError m), traced (Ev_Create_ConfigMap cm False) w)
      | None \<Rightarrow>
          (None, traced (Ev_Create_ConfigMap cm True) (w\<lparr>configmaps := configmaps w @ [cm]\<rparr>)))"

definition put_configmap :: "ConfigMap \<Rightarrow> ConfigMap list \<Rightarrow> ConfigMap list" where
  "put_configmap cm cs = map (\<lambda>c. if cm_key c = cm_key cm then cm else c) cs"

definition Update_ConfigMap ::
    "faults \<Rightarrow> ConfigMap \<Rightarrow> ('f, 'sel) world \<Rightarrow> go_error option \<times> ('f, 'sel) world" where
  "Update_ConfigMap flt cm w =
     (case flt Call_Update_ConfigMap of
        Some m \<Rightarrow> (Some (StoreError m), traced (Ev_Update_ConfigMap cm False) w)
      | None \<Rightarrow>
          (None, traced (Ev_Update_ConfigMap cm True)
                   (w\<lparr>configmaps := put_configmap cm (configmaps w)\<rparr>)))"

definition List_Deployments ::
    "faults \<Rightarrow> list_opts \<Rightarrow> ('f, 'sel) world
      \<Rightarrow> (go_error + Deployment list) \<times> ('f, 'sel) world" where
  "List_Deployments flt opts w =
     ((case flt Call_List_Deployments of
         Some m \<Rightarrow> Inl (StoreError m)
       | None \<Rightarrow> Inr (filter (\<lambda>d. listed opts (d_namespace d) (d_labels d)) (deployments w))),
      traced (Ev_List_Deployments (fst opts)) w)"

definition put_deployment :: "Deployment \<Rightarrow> Deployment list \<Rightarrow> Deployment list" where
  "put_deployment d ds = map (\<lambda>x. if d_key x = d_key d then d else x) ds"

definition Update_Deployment ::
    "faults \<Rightarrow> Deployment \<Rightarrow> ('f, 'sel) world \<Rightarrow> go_error option \<times> ('f, 'sel) world" where
  "Update_Deployment flt d w =
     (case flt (Call_Update_Deployment (d_name d)) of
        Some m \<Rightarrow> (Some (StoreError m), traced (Ev_Update_Deployment d False) w)
      | None \<Rightarrow>
          (None, traced (Ev_Update_Deployment d True)
                   (w\<lparr>deployments := put_deployment d (deployments w)\<rparr>)))"

section \<open>Patching workloads (lines 269-302)\<close>

text \<open>
  The test of line 277, the search loop of lines 275-281 with its \<^verbatim>\<open>break\<close>, and the
  reference appended at lines 284-290.
\<close>

definition refers_to :: "string \<Rightarrow> EnvFromSource \<Rightarrow> bool" where
  "refers_to configMapName envFrom =
     (case ConfigMapRef envFrom of None \<Rightarrow> False | Some r \<Rightarrow> RefName r = configMapName)"

definition envFromExists :: "string \<Rightarrow> Container \<Rightarrow> bool" where
  "envFromExists configMapName container = list_ex (refers_to configMapName) (EnvFrom container)"

definition config_ref :: "string \<Rightarrow> EnvFromSource" where
  "config_ref configMapName =
     \<lparr>Prefix = [], ConfigMapRef = Some \<lparr>RefName = configMapName, Optional = None\<rparr>,
      SecretRef = None\<rparr>"

definition patch_container :: "string \<Rightarrow> Container \<Rightarrow> Container" where
  "patch_container configMapName container =
     (if \<not> envFromExists configMapName container
      then container\<lparr>EnvFrom := EnvFrom container @ [config_ref configMapName]\<rparr>
      else container)"

text \<open>
  The loop over the containers of one deployment: the patched deployment and the flag
  \<^verbatim>\<open>updated\<close>, set when some container had no reference.
\<close>

definition patch_deployment :: "string \<Rightarrow> Deployment \<Rightarrow> Deployment \<times> bool" where
  "patch_deployment configMapName deployment =
     (deployment\<lparr>Containers := map (patch_container configMapName) (Containers deployment)\<rparr>,
      list_ex (\<lambda>c. \<not> envFromExists configMapName c) (Containers deployment))"

text \<open>
  The body of the loop over the listed deployments: the write of lines 295-301, whose
  failure is logged and nothing else.
\<close>

definition patch_step ::
    "faults \<Rightarrow> string \<Rightarrow> Deployment \<Rightarrow> ('f, 'sel) world \<Rightarrow> ('f, 'sel) world" where
  "patch_step flt configMapName deployment w =
     (let (deployment, updated) = patch_deployment configMapName deployment
      in if updated then snd (Update_Deployment flt deployment w) else w)"

fun patch_loop ::
    "faults \<Rightarrow> string \<Rightarrow> Deployment list \<Rightarrow> ('f, 'sel) world \<Rightarrow> ('f, 'sel) world" where
  "patch_loop flt configMapName [] w = w"
| "patch_loop flt configMapName (deployment # items) w =
     patch_loop flt configMapName items (patch_step flt configMapName deployment w)"

text \<open>Lines 264-303: a failed listing is logged and the pass goes on.\<close>

definition patch_Deployments ::
    "faults \<Rightarrow> list_opts \<Rightarrow> string \<Rightarrow> ('f, 'sel) world \<Rightarrow> ('f, 'sel) world" where
  "patch_Deployments flt listOpts configMapName w =
     (case List_Deployments flt listOpts w of
        (Inl err, w) \<Rightarrow> w
      | (Inr items, w) \<Rightarrow> patch_loop flt configMapName items w)"

section \<open>The reconcile pass (lines 154-325)\<close>

text \<open>
  What \<^verbatim>\<open>Reconcile\<close> returns: \<^verbatim>\<open>RequeueAfter\<close> in seconds (0 in \<^verbatim>\<open>ctrl.Result{}\<close>) and
  the error.
\<close>

type_synonym result = "nat \<times> go_error option"

text \<open>
  The four failure exits of lines 186-189, 196-199, 241-244 and 256-259: phase
  \<^verbatim>\<open>Failed\<close>, the message, a status update whose own result is dropped, and the error
  returned.
\<close>

definition fail_pass ::
    "faults \<Rightarrow> ('f, 'sel) TracingConfig \<Rightarrow> string \<Rightarrow> go_error \<Rightarrow> ('f, 'sel) world
      \<Rightarrow> result \<times> ('f, 'sel) world" where
  "fail_pass flt tracingConfig what err w =
     (let tracingConfig = tracingConfig\<lparr>Status := (Status tracingConfig)
            \<lparr>Phase := ''Failed'', Message := what @ error_string err\<rparr>\<rparr>;
          (_, w) = Status_Update flt tracingConfig w
      in ((0, Some err), w))"

text \<open>
  Lines 234-262. \<open>Inl\<close> is a pass that has returned, \<open>Inr\<close> one that goes on to the
  deployments.
\<close>

definition ensure_ConfigMap ::
    "faults \<Rightarrow> ('f, 'sel) TracingConfig \<Rightarrow> ConfigMap \<Rightarrow> ('f, 'sel) world
      \<Rightarrow> (result \<times> ('f, 'sel) world) + ('f, 'sel) world" where
  "ensure_ConfigMap flt tracingConfig configMap w =
     (case Get_ConfigMap flt (cm_key configMap) w of
        (Inl err, w) \<Rightarrow>
          (if IgnoreNotFound err = None
           then (case Create_ConfigMap flt configMap w of
                   (Some err, w) \<Rightarrow>
                     Inl (fail_pass flt tracingConfig ''Failed to create ConfigMap: '' err w)
                 | (None, w) \<Rightarrow> Inr w)
           else Inl ((0, Some err), w))
      | (Inr existingConfigMap, w) \<Rightarrow>
          (case Update_ConfigMap flt (existingConfigMap\<lparr>Data := Data configMap\<rparr>) w of
             (Some err, w) \<Rightarrow>
               Inl (fail_pass flt tracingConfig ''Failed to update ConfigMap: '' err w)
           | (None, w) \<Rightarrow> Inr w))"

text \<open>Lines 305-324; \<open>now\<close> is the clock read by \<^verbatim>\<open>metav1.Now()\<close>.\<close>

definition report_Applied ::
    "faults \<Rightarrow> nat \<Rightarrow> ('f, 'sel) TracingConfig \<Rightarrow> Pod list \<Rightarrow> ('f, 'sel) world
      \<Rightarrow> result \<times> ('f, 'sel) world" where
  "report_Applied flt now tracingConfig items w =
     (let targetPodNames = map pod_name items;
          tracingConfig = tracingConfig\<lparr>Status :=
            \<lparr>Phase = ''Applied'',
             Message = ''Tracing configuration applied to ''
                         @ Sprintf_d (int (length targetPodNames)) @ '' pods'',
             AppliedAt = Some now,
             TargetPods = targetPodNames\<rparr>\<rparr>
      in case Status_Update flt tracingConfig w of
           (Some err, w) \<Rightarrow> ((0, Some err), w)
         | (None, w) \<Rightarrow> ((300, None), w))"

text \<open>
  The library the controller calls: \<^verbatim>\<open>fmt.Sprintf("%.2f", _)\<close> on the sampling rate and
  \<^verbatim>\<open>metav1.LabelSelectorAsSelector\<close>, which rejects a malformed selector with a message.
\<close>

record ('f, 'sel) library =
  Sprintf_2f :: "'f \<Rightarrow> string"
  LabelSelectorAsSelector :: "'sel \<Rightarrow> string + (labels \<Rightarrow> bool)"

text \<open>Lines 182-192: no selector, a selector that compiles, or the error.\<close>

definition resolve_selector ::
    "('f, 'sel) library \<Rightarrow> 'sel option \<Rightarrow> string + (labels \<Rightarrow> bool) option" where
  "resolve_selector lib sel =
     (case sel of
        None \<Rightarrow> Inr None
      | Some ls \<Rightarrow>
          (case LabelSelectorAsSelector lib ls of
             Inl m \<Rightarrow> Inl m
           | Inr selector \<Rightarrow> Inr (Some selector)))"

definition Reconcile ::
    "('f, 'sel) library \<Rightarrow> faults \<Rightarrow> nat \<Rightarrow> object_key \<Rightarrow> ('f, 'sel) world
      \<Rightarrow> result \<times> ('f, 'sel) world" where
  "Reconcile lib flt now req w =
     (case Get_TracingConfig flt req w of
        (Inl err, w) \<Rightarrow> ((0, IgnoreNotFound err), w)
      | (Inr tracingConfig, w) \<Rightarrow>
          (let tracingConfig = tracingConfig\<lparr>Status := (Status tracingConfig)
                 \<lparr>Phase := ''Pending'', Message := ''Processing tracing configuration''\<rparr>\<rparr>;
               (_, w) = Status_Update flt tracingConfig w;
               targetNamespace =
                 (if Namespace (Spec tracingConfig) = [] then tc_namespace tracingConfig
                  else Namespace (Spec tracingConfig))
           in case resolve_selector lib (Selector (Spec tracingConfig)) of
                Inl m \<Rightarrow>
                  fail_pass flt tracingConfig ''Invalid label selector: '' (InvalidSelector m) w
              | Inr selector \<Rightarrow>
                  (let listOpts = (targetNamespace, selector)
                   in case List_Pods flt listOpts w of
                        (Inl err, w) \<Rightarrow> fail_pass flt tracingConfig ''Failed to list pods: '' err w
                      | (Inr items, w) \<Rightarrow>
                          (let configMapName = tc_name tracingConfig @ ''-tracing-config'';
                               configMap =
                                 \<lparr>cm_namespace = targetNamespace, cm_name = configMapName,
                                  cm_labels = [],
                                  Data = config_data (Sprintf_2f lib) (Spec tracingConfig)\<rparr>
                           in case ensure_ConfigMap flt tracingConfig configMap w of
                                Inl returned \<Rightarrow> returned
                              | Inr w \<Rightarrow>
                                  report_Applied flt now tracingConfig items
                                    (patch_Deployments flt listOpts configMapName w)))))"

section \<open>Observing a pass\<close>

text \<open>The calls a pass has added to the trace, and the status the store holds for a policy.\<close>

definition new_events :: "('f, 'sel) world \<Rightarrow> ('f, 'sel) world \<Rightarrow> event list" where
  "new_events w w' = drop (length (trace w)) (trace w')"

definition stored_status :: "object_key \<Rightarrow> ('f, 'sel) world \<Rightarrow> TracingConfigStatus option" where
  "stored_status req w = map_option Status (find (\<lambda>t. tc_key t = req) (tracingconfigs w))"

fun is_config_write :: "event \<Rightarrow> bool" where
  "is_config_write (Ev_Create_ConfigMap c ok) = True"
| "is_config_write (Ev_Update_ConfigMap c ok) = True"
| "is_config_write e = False"

fun config_written :: "event \<Rightarrow> bool" where
  "config_written (Ev_Create_ConfigMap c ok) = ok"
| "config_written (Ev_Update_ConfigMap c ok) = ok"
| "config_written e = False"

fun is_workload_write :: "event \<Rightarrow> bool" where
  "is_workload_write (Ev_Update_Deployment d ok) = True"
| "is_workload_write e = False"

fun is_status_update :: "event \<Rightarrow> bool" where
  "is_status_update (Ev_Status_Update k st ok) = True"
| "is_status_update e = False"

definition count_refs :: "string \<Rightarrow> Container \<Rightarrow> nat" where
  "count_refs configMapName c = length (filter (refers_to configMapName) (EnvFrom c))"

text \<open>
  The attempts to write a workload that the loop over \<open>items\<close> makes: one for each
  deployment with a container that lacks the reference, in the order of the listing.
\<close>

definition workload_writes :: "faults \<Rightarrow> string \<Rightarrow> Deployment list \<Rightarrow> event list" where
  "workload_writes flt configMapName items =
     map (\<lambda>d. Ev_Update_Deployment (fst (patch_deployment configMapName d))
                 (flt (Call_Update_Deployment (d_name d)) = None))
       (filter (\<lambda>d. snd (patch_deployment configMapName d)) items)"

text \<open>
  A user's edit of the two fields of a policy's spec that \<^verbatim>\<open>Reconcile\<close> never mentions,
  \<^verbatim>\<open>Enabled\<close> and \<^verbatim>\<open>Headers\<close>.
\<close>

definition set_unread ::
    "bool \<Rightarrow> (string \<times> string) list \<Rightarrow> ('f, 'sel) TracingConfig \<Rightarrow> ('f, 'sel) TracingConfig" where
  "set_unread e h t = t\<lparr>Spec := (Spec t)\<lparr>Enabled := e, Headers := h\<rparr>\<rparr>"

definition edit_policy ::
    "object_key \<Rightarrow> bool \<Rightarrow> (string \<times> string) list \<Rightarrow> ('f, 'sel) world \<Rightarrow> ('f, 'sel) world" where
  "edit_policy key e h w =
     w\<lparr>tracingconfigs :=
         map (\<lambda>t. if tc_key t = key then set_unread e h t else t) (tracingconfigs w)\<rparr>"

section \<open>A small cluster\<close>

text \<open>
  An instance of the library and a store to run the pass on: two sampling rates with
  their renderings, selectors that are either a set of required labels or an expression
  with an operator the library does not know, and the policy of the scenario
  (rate 0.5, endpoint \<^verbatim>\<open>collector:4317\<close>, service \<^verbatim>\<open>svc-a\<close>, selector \<^verbatim>\<open>app: svc-a\<close>).
\<close>

datatype sample_rate = Half | Tenth

fun sample_2f :: "sample_rate \<Rightarrow> string" where
  "sample_2f Half = ''0.50''"
| "sample_2f Tenth = ''0.10''"

datatype sample_selector = MatchLabels labels | BadOperator string

fun sample_as_selector :: "sample_selector \<Rightarrow> string + (labels \<Rightarrow> bool)" where
  "sample_as_selector (MatchLabels required) =
     Inr (\<lambda>ls. list_all (\<lambda>(k, v). map_of ls k = Some v) required)"
| "sample_as_selector (BadOperator opr) = Inl (opr @ '' is not a valid label selector operator'')"

definition sample_library :: "(sample_rate, sample_selector) library" where
  "sample_library = \<lparr>Sprintf_2f = sample_2f, LabelSelectorAsSelector = sample_as_selector\<rparr>"

definition sample_spec :: "(sample_rate, sample_selector) TracingConfigSpec" where
  "sample_spec =
     \<lparr>Enabled = True, SamplingRate = Half, Endpoint = ''collector:4317'',
      ServiceName = ''svc-a'', Namespace = [],
      Selector = Some (MatchLabels [(''app'', ''svc-a'')]),
      Headers = [], Attributes = [(''team'', ''obs''), (''env'', ''dev'')],
      ExportTimeout = ''10s'', BatchTimeout = [], MaxBatchSize = 512\<rparr>"

definition sample_policy :: "(sample_rate, sample_selector) TracingConfig" where
  "sample_policy =
     \<lparr>tc_namespace = ''default'', tc_name = ''demo'', Spec = sample_spec,
      Status = \<lparr>Phase = [], Message = [], AppliedAt = None, TargetPods = []\<rparr>\<rparr>"

definition sample_req :: object_key where
  "sample_req = (''default'', ''demo'')"

definition secret_ref :: EnvFromSource where
  "secret_ref = \<lparr>Prefix = ''DB_'', ConfigMapRef = None,
                  SecretRef = Some \<lparr>RefName = ''db'', Optional = None\<rparr>\<rparr>"

definition api_deployment :: Deployment where
  "api_deployment =
     \<lparr>d_namespace = ''default'', d_name = ''api'', d_labels = [(''app'', ''svc-a'')],
      Containers = [\<lparr>c_name = ''api'', c_image = ''api:1'', EnvFrom = []\<rparr>]\<rparr>"

definition worker_deployment :: Deployment where
  "worker_deployment =
     \<lparr>d_namespace = ''default'', d_name = ''worker'', d_labels = [(''app'', ''svc-a'')],
      Containers = [\<lparr>c_name = ''worker'', c_image = ''worker:1'', EnvFrom = [secret_ref]\<rparr>]\<rparr>"

definition cron_deployment :: Deployment where
  "cron_deployment =
     \<lparr>d_namespace = ''default'', d_name = ''cron'', d_labels = [(''app'', ''svc-a'')],
      Containers = [\<lparr>c_name = ''cron'', c_image = ''cron:1'',
                     EnvFrom = [config_ref ''demo-tracing-config'']\<rparr>]\<rparr>"

definition batch_deployment :: Deployment where
  "batch_deployment =
     \<lparr>d_namespace = ''default'', d_name = ''batch'', d_labels = [(''app'', ''svc-a'')],
      Containers = [\<lparr>c_name = ''batch'', c_image = ''batch:1'', EnvFrom = []\<rparr>]\<rparr>"

definition other_deployment :: Deployment where
  "other_deployment =
     \<lparr>d_namespace = ''default'', d_name = ''other'', d_labels = [(''app'', ''svc-b'')],
      Containers = [\<lparr>c_name = ''other'', c_image = ''other:1'', EnvFrom = []\<rparr>]\<rparr>"

definition sample_pods :: "Pod list" where
  "sample_pods =
     [\<lparr>pod_namespace = ''default'', pod_name = ''api-1'', pod_labels = [(''app'', ''svc-a'')]\<rparr>,
      \<lparr>pod_namespace = ''default'', pod_name = ''other-1'', pod_labels = [(''app'', ''svc-b'')]\<rparr>,
      \<lparr>pod_namespace = ''default'', pod_name = ''worker-1'', pod_labels = [(''app'', ''svc-a'')]\<rparr>,
      \<lparr>pod_namespace = ''default'', pod_name = ''cron-1'', pod_labels = [(''app'', ''svc-a'')]\<rparr>]"

definition sample_world :: "(sample_rate, sample_selector) world" where
  "sample_world =
     \<lparr>tracingconfigs = [sample_policy], configmaps = [], pods = sample_pods,
      deployments =
        [api_deployment, other_deployment, worker_deployment, cron_deployment,
         batch_deployment],
      trace = []\<rparr>"

text \<open>The same policy with a selector the library rejects.\<close>

definition bad_selector_policy :: "(sample_rate, sample_selector) TracingConfig" where
  "bad_selector_policy = sample_policy\<lparr>Spec := sample_spec\<lparr>Selector := Some (BadOperator ''Near'')\<rparr>\<rparr>"

definition bad_selector_world :: "(sample_rate, sample_selector) world" where
  "bad_selector_world = sample_world\<lparr>tracingconfigs := [bad_selector_policy]\<rparr>"

text \<open>A fault plan in which one call fails.\<close>

definition failing :: "call \<Rightarrow> string \<Rightarrow> faults" where
  "failing c m = (\<lambda>x. if x = c then Some m else None)"

text \<open>
  The sample cluster as an earlier pass has left its policy, with phase \<^verbatim>\<open>Applied\<close>, and a
  fault plan in which every status update fails, as when the controller may not write
  the status subresource.
\<close>

definition stale_policy :: "(sample_rate, sample_selector) TracingConfig" where
  "stale_policy =
     sample_policy\<lparr>Status :=
       \<lparr>Phase = ''Applied'', Message = ''Tracing configuration applied to 0 pods'',
        AppliedAt = Some 1, TargetPods = []\<rparr>\<rparr>"

definition stale_world :: "(sample_rate, sample_selector) world" where
  "stale_world = sample_world\<lparr>tracingconfigs := [stale_policy]\<rparr>"

definition status_updates_fail :: faults where
  "status_updates_fail =
     (\<lambda>c. case c of Call_Status_Update phase \<Rightarrow> Some ''forbidden'' | _ \<Rightarrow> None)"

text \<open>The store after one pass and after a second one, with no call failing.\<close>

definition after_first_pass :: "(sample_rate, sample_selector) world" where
  "after_first_pass = snd (Reconcile sample_library no_faults 7 sample_req sample_world)"

definition after_second_pass :: "(sample_rate, sample_selector) world" where
  "after_second_pass = snd (Reconcile sample_library no_faults 8 sample_req after_first_pass)"

text \<open>A deployment whose author has already listed the config map twice.\<close>

definition twice_referenced :: Deployment where
  "twice_referenced =
     \<lparr>d_namespace = ''default'', d_name = ''twice'', d_labels = [(''app'', ''svc-a'')],
      Containers =
        [\<lparr>c_name = ''twice'', c_image = ''twice:1'',
          EnvFrom = [config_ref ''demo-tracing-config'',
                     (config_ref ''demo-tracing-config'')\<lparr>Prefix := ''TRACE_''\<rparr>]\<rparr>]\<rparr>"

section \<open>Properties of the formatting\<close>

lemma of_char_digit_char: "of_char (digit_char d) = 48 + d mod 10"
proof -
  have "48 + d mod 10 < 256" by (rule less_trans [of _ "48 + 10"]) simp_all
  then show ?thesis by (simp add: digit_char_def)
qed

lemma digit_char_is_digit: "is_digit (digit_char d)"
proof -
  have "d mod 10 \<le> 9" using mod_less_divisor [of 10 d] by linarith
  then show ?thesis by (simp add: is_digit_def of_char_digit_char)
qed

lemma digit_val_digit_char: "d < 10 \<Longrightarrow> digit_val (digit_char d) = d"
  by (simp add: digit_val_def of_char_digit_char)

lemma digit_char_zero: "d < 10 \<Longrightarrow> digit_char d = CHR ''0'' \<Longrightarrow> d = 0"
proof -
  assume lt: "d < 10" and z: "digit_char d = CHR ''0''"
  from lt have "d = digit_val (digit_char d)" by (simp add: digit_val_digit_char)
  also have "\<dots> = digit_val (CHR ''0'')" by (simp only: z)
  also have "\<dots> = 0" by (simp add: digit_val_def)
  finally show ?thesis .
qed

lemma decimal_nonempty: "decimal n \<noteq> []"
  by (subst decimal.simps) simp

lemma decimal_digits: "\<forall>c \<in> set (decimal n). is_digit c"
proof (induction n rule: decimal.induct)
  case (1 n)
  show ?case
  proof (cases "n < 10")
    case True
    then show ?thesis by (subst decimal.simps) (simp add: digit_char_is_digit)
  next
    case False
    with 1 show ?thesis by (subst decimal.simps) (auto simp: digit_char_is_digit)
  qed
qed

lemma undecimal_snoc: "undecimal (s @ [c]) = 10 * undecimal s + digit_val c"
  by (simp add: undecimal_def)

lemma undecimal_decimal: "undecimal (decimal n) = n"
proof (induction n rule: decimal.induct)
  case (1 n)
  show ?case
  proof (cases "n < 10")
    case True
    then show ?thesis
      by (subst decimal.simps) (simp add: undecimal_def digit_val_digit_char)
  next
    case False
    with 1 have "undecimal (decimal (n div 10)) = n div 10" by simp
    with False show ?thesis
      by (subst decimal.simps) (simp add: undecimal_snoc digit_val_digit_char)
  qed
qed

lemma decimal_no_leading_zero: "0 < n \<Longrightarrow> hd (decimal n) \<noteq> CHR ''0''"
proof (induction n rule: decimal.induct)
  case (1 n)
  show ?case
  proof (cases "n < 10")
    case True
    with "1.prems" show ?thesis
      by (subst decimal.simps) (auto dest: digit_char_zero)
  next
    case False
    then have "0 < n div 10" by (simp add: div_greater_zero_iff)
    with 1 False have "hd (decimal (n div 10)) \<noteq> CHR ''0''" by simp
    with False show ?thesis
      by (subst decimal.simps) (simp add: decimal_nonempty)
  qed
qed

section \<open>The attribute loop\<close>

lemma add_attributes_Nil: "add_attributes [] d = d"
  by (simp add: add_attributes_def)

lemma add_attributes_Cons:
  "add_attributes ((key, v) # attrs) d =
     add_attributes attrs (d(''OTEL_RESOURCE_ATTRIBUTES_'' @ key \<mapsto> v))"
  by (simp add: add_attributes_def)

lemma add_attributes_other:
  "\<forall>key \<in> fst ` set attrs. k \<noteq> ''OTEL_RESOURCE_ATTRIBUTES_'' @ key \<Longrightarrow>
     add_attributes attrs d k = d k"
proof (induction attrs arbitrary: d)
  case Nil
  show ?case by (simp only: add_attributes_Nil)
next
  case (Cons a attrs)
  obtain key v where a: "a = (key, v)" by (cases a)
  from Cons.prems a have ne: "k \<noteq> ''OTEL_RESOURCE_ATTRIBUTES_'' @ key"
    and rest: "\<forall>key \<in> fst ` set attrs. k \<noteq> ''OTEL_RESOURCE_ATTRIBUTES_'' @ key"
    by auto
  from Cons.IH [OF rest] ne show ?case
    unfolding a add_attributes_Cons by simp
qed

lemma add_attributes_attr:
  "distinct (map fst attrs) \<Longrightarrow> (key, v) \<in> set attrs \<Longrightarrow>
     add_attributes attrs d (''OTEL_RESOURCE_ATTRIBUTES_'' @ key) = Some v"
proof (induction attrs arbitrary: d)
  case Nil
  then show ?case by simp
next
  case (Cons a attrs)
  obtain key' v' where a: "a = (key', v')" by (cases a)
  show ?case
  proof (cases "(key, v) \<in> set attrs")
    case True
    with Cons show ?thesis unfolding a add_attributes_Cons by simp
  next
    case False
    with Cons.prems a have eq: "key' = key" "v' = v" by auto
    from Cons.prems a eq have "key \<notin> fst ` set attrs" by simp
    then have "\<forall>k \<in> fst ` set attrs.
        ''OTEL_RESOURCE_ATTRIBUTES_'' @ key \<noteq> ''OTEL_RESOURCE_ATTRIBUTES_'' @ k"
      by auto
    from add_attributes_other [OF this] show ?thesis
      unfolding a eq add_attributes_Cons by simp
  qed
qed

lemma dom_add_attributes:
  "dom (add_attributes attrs d) =
     dom d \<union> (\<lambda>key. ''OTEL_RESOURCE_ATTRIBUTES_'' @ key) ` fst ` set attrs"
proof (induction attrs arbitrary: d)
  case Nil
  show ?case by (simp add: add_attributes_Nil)
next
  case (Cons a attrs)
  obtain key v where a: "a = (key, v)" by (cases a)
  show ?case unfolding a add_attributes_Cons Cons.IH by auto
qed

lemma add_attributes_order:
  assumes "distinct (map fst attrs)" and "distinct (map fst attrs')"
    and "set attrs = set attrs'"
  shows "add_attributes attrs d = add_attributes attrs' d"
proof (rule ext)
  fix k
  show "add_attributes attrs d k = add_attributes attrs' d k"
  proof (cases "\<exists>key \<in> fst ` set attrs. k = ''OTEL_RESOURCE_ATTRIBUTES_'' @ key")
    case True
    then obtain key v where kv: "(key, v) \<in> set attrs"
      and k: "k = ''OTEL_RESOURCE_ATTRIBUTES_'' @ key" by auto
    from kv assms(3) have kv': "(key, v) \<in> set attrs'" by simp
    from add_attributes_attr [OF assms(1) kv] add_attributes_attr [OF assms(2) kv'] k
    show ?thesis by simp
  next
    case False
    then have a: "\<forall>key \<in> fst ` set attrs. k \<noteq> ''OTEL_RESOURCE_ATTRIBUTES_'' @ key" by blast
    with assms(3) have b: "\<forall>key \<in> fst ` set attrs'. k \<noteq> ''OTEL_RESOURCE_ATTRIBUTES_'' @ key"
      by simp
    from add_attributes_other [OF a] add_attributes_other [OF b] show ?thesis by simp
  qed
qed

text \<open>No fixed key of the payload begins with the attribute prefix, so the loop leaves them alone.\<close>

lemma config_data_fixed:
  assumes "\<forall>key. k \<noteq> ''OTEL_RESOURCE_ATTRIBUTES_'' @ key"
  shows "config_data fmt2f s k =
     (if k = ''OTEL_BSP_MAX_EXPORT_BATCH_SIZE'' \<and> 0 < sint (MaxBatchSize s)
        then Some (Sprintf_d (sint (MaxBatchSize s)))
      else if k = ''OTEL_BSP_SCHEDULE_DELAY'' \<and> BatchTimeout s \<noteq> [] then Some (BatchTimeout s)
      else if k = ''OTEL_EXPORTER_OTLP_TIMEOUT'' \<and> ExportTimeout s \<noteq> []
        then Some (ExportTimeout s)
      else if k = ''OTEL_TRACES_SAMPLER_ARG'' then Some (fmt2f (SamplingRate s))
      else if k = ''OTEL_TRACES_SAMPLER'' then Some ''traceidratio''
      else if k = ''OTEL_SERVICE_NAME'' then Some (ServiceName s)
      else if k = ''OTEL_EXPORTER_OTLP_ENDPOINT'' then Some (Endpoint s)
      else None)"
proof -
  from assms have "\<forall>key \<in> fst ` set (Attributes s). k \<noteq> ''OTEL_RESOURCE_ATTRIBUTES_'' @ key"
    by blast
  from add_attributes_other [OF this] show ?thesis
    by (simp add: config_data_def Let_def)
qed

section \<open>The compiled payload\<close>

text \<open>
  C4. The payload holds the endpoint, the service name, the sampler kind
  \<^verbatim>\<open>traceidratio\<close> and the sampling rate as \<^verbatim>\<open>%.2f\<close> renders it; the export timeout and
  the batch schedule delay exactly when those fields are not empty; the maximal batch
  size exactly when it is positive, in decimal digits that do not start with a zero and
  that denote the number; for every entry of the attribute map the key
  \<^verbatim>\<open>OTEL_RESOURCE_ATTRIBUTES_\<close> followed by the attribute's key, with the attribute's
  value; and no other key.
\<close>

theorem config_data_keys:
  fixes s :: "('f, 'sel) TracingConfigSpec" and fmt2f :: "'f \<Rightarrow> string"
  defines "d \<equiv> config_data fmt2f s"
  defines "digits \<equiv> decimal (nat (sint (MaxBatchSize s)))"
  assumes "distinct (map fst (Attributes s))"
  shows "d ''OTEL_EXPORTER_OTLP_ENDPOINT'' = Some (Endpoint s) \<and>
         d ''OTEL_SERVICE_NAME'' = Some (ServiceName s) \<and>
         d ''OTEL_TRACES_SAMPLER'' = Some ''traceidratio'' \<and>
         d ''OTEL_TRACES_SAMPLER_ARG'' = Some (fmt2f (SamplingRate s)) \<and>
         d ''OTEL_EXPORTER_OTLP_TIMEOUT'' =
           (if ExportTimeout s \<noteq> [] then Some (ExportTimeout s) else None) \<and>
         d ''OTEL_BSP_SCHEDULE_DELAY'' =
           (if BatchTimeout s \<noteq> [] then Some (BatchTimeout s) else None) \<and>
         d ''OTEL_BSP_MAX_EXPORT_BATCH_SIZE'' =
           (if 0 < sint (MaxBatchSize s) then Some digits else None) \<and>
         (0 < sint (MaxBatchSize s) \<longrightarrow>
            hd digits \<noteq> CHR ''0'' \<and> (\<forall>c \<in> set digits. is_digit c) \<and>
            int (undecimal digits) = sint (MaxBatchSize s)) \<and>
         (\<forall>(key, value) \<in> set (Attributes s).
            d (''OTEL_RESOURCE_ATTRIBUTES_'' @ key) = Some value) \<and>
         dom d =
           {''OTEL_EXPORTER_OTLP_ENDPOINT'', ''OTEL_SERVICE_NAME'', ''OTEL_TRACES_SAMPLER'',
            ''OTEL_TRACES_SAMPLER_ARG''}
           \<union> (if ExportTimeout s \<noteq> [] then {''OTEL_EXPORTER_OTLP_TIMEOUT''} else {})
           \<union> (if BatchTimeout s \<noteq> [] then {''OTEL_BSP_SCHEDULE_DELAY''} else {})
           \<union> (if 0 < sint (MaxBatchSize s) then {''OTEL_BSP_MAX_EXPORT_BATCH_SIZE''} else {})
           \<union> (\<lambda>key. ''OTEL_RESOURCE_ATTRIBUTES_'' @ key) ` fst ` set (Attributes s)"
proof -
  have fixed: "d ''OTEL_EXPORTER_OTLP_ENDPOINT'' = Some (Endpoint s)"
    "d ''OTEL_SERVICE_NAME'' = Some (ServiceName s)"
    "d ''OTEL_TRACES_SAMPLER'' = Some ''traceidratio''"
    "d ''OTEL_TRACES_SAMPLER_ARG'' = Some (fmt2f (SamplingRate s))"
    "d ''OTEL_EXPORTER_OTLP_TIMEOUT'' =
       (if ExportTimeout s \<noteq> [] then Some (ExportTimeout s) else None)"
    "d ''OTEL_BSP_SCHEDULE_DELAY'' =
       (if BatchTimeout s \<noteq> [] then Some (BatchTimeout s) else None)"
    "d ''OTEL_BSP_MAX_EXPORT_BATCH_SIZE'' =
       (if 0 < sint (MaxBatchSize s) then Some digits else None)"
    unfolding d_def digits_def
    by (subst config_data_fixed; simp add: Sprintf_d_def)+
  have padding: "hd digits \<noteq> CHR ''0'' \<and> (\<forall>c \<in> set digits. is_digit c) \<and>
      int (undecimal digits) = sint (MaxBatchSize s)" if "0 < sint (MaxBatchSize s)"
    using that unfolding digits_def
    by (simp add: decimal_no_leading_zero decimal_digits undecimal_decimal)
  have attrs: "\<forall>(key, value) \<in> set (Attributes s).
      d (''OTEL_RESOURCE_ATTRIBUTES_'' @ key) = Some value"
    unfolding d_def config_data_def Let_def
    using add_attributes_attr [OF assms(3)] by blast
  have keys: "dom d =
      {''OTEL_EXPORTER_OTLP_ENDPOINT'', ''OTEL_SERVICE_NAME'', ''OTEL_TRACES_SAMPLER'',
       ''OTEL_TRACES_SAMPLER_ARG''}
      \<union> (if ExportTimeout s \<noteq> [] then {''OTEL_EXPORTER_OTLP_TIMEOUT''} else {})
      \<union> (if BatchTimeout s \<noteq> [] then {''OTEL_BSP_SCHEDULE_DELAY''} else {})
      \<union> (if 0 < sint (MaxBatchSize s) then {''OTEL_BSP_MAX_EXPORT_BATCH_SIZE''} else {})
      \<union> (\<lambda>key. ''OTEL_RESOURCE_ATTRIBUTES_'' @ key) ` fst ` set (Attributes s)"
    unfolding d_def config_data_def Let_def dom_add_attributes by auto
  from fixed padding attrs keys show ?thesis by blast
qed

theorem config_data_keys_witness:
  "distinct (map fst (Attributes sample_spec)) \<and>
   config_data sample_2f sample_spec ''OTEL_EXPORTER_OTLP_ENDPOINT'' = Some ''collector:4317'' \<and>
   config_data sample_2f sample_spec ''OTEL_TRACES_SAMPLER_ARG'' = Some ''0.50'' \<and>
   config_data sample_2f sample_spec ''OTEL_EXPORTER_OTLP_TIMEOUT'' = Some ''10s'' \<and>
   config_data sample_2f sample_spec ''OTEL_BSP_SCHEDULE_DELAY'' = None \<and>
   config_data sample_2f sample_spec ''OTEL_BSP_MAX_EXPORT_BATCH_SIZE'' = Some ''512'' \<and>
   config_data sample_2f sample_spec ''OTEL_RESOURCE_ATTRIBUTES_team'' = Some ''obs'' \<and>
   dom (config_data sample_2f sample_spec) =
     {''OTEL_EXPORTER_OTLP_ENDPOINT'', ''OTEL_SERVICE_NAME'', ''OTEL_TRACES_SAMPLER'',
      ''OTEL_TRACES_SAMPLER_ARG'', ''OTEL_EXPORTER_OTLP_TIMEOUT'',
      ''OTEL_BSP_MAX_EXPORT_BATCH_SIZE'', ''OTEL_RESOURCE_ATTRIBUTES_team'',
      ''OTEL_RESOURCE_ATTRIBUTES_env''}"
proof -
  have h: "distinct (map fst (Attributes sample_spec))"
    by (simp add: sample_spec_def)
  have n: "decimal 512 = ''512''"
    by code_simp
  from h config_data_keys [OF h, of sample_2f] n show ?thesis
    by (auto simp: sample_spec_def)
qed

text \<open>
  C9. Two runs of the compiler on the same spec, visiting the entries of the attribute
  map in different orders, produce the same payload.
\<close>

theorem config_data_deterministic:
  assumes "distinct (map fst (Attributes s))" and "distinct (map fst attrs')"
    and "set attrs' = set (Attributes s)"
  shows "config_data fmt2f (s\<lparr>Attributes := attrs'\<rparr>) = config_data fmt2f s"
  using add_attributes_order [OF assms(2,1,3)] by (simp add: config_data_def Let_def)

theorem config_data_deterministic_witness:
  "distinct (map fst (Attributes sample_spec)) \<and>
   distinct (map fst [(''env'', ''dev''), (''team'', ''obs'')]) \<and>
   set [(''env'', ''dev''), (''team'', ''obs'')] = set (Attributes sample_spec) \<and>
   config_data sample_2f (sample_spec\<lparr>Attributes := [(''env'', ''dev''), (''team'', ''obs'')]\<rparr>)
     = config_data sample_2f sample_spec"
proof -
  have h1: "distinct (map fst (Attributes sample_spec))"
    by (simp add: sample_spec_def)
  have h2: "distinct (map fst [(''env'', ''dev''), (''team'', ''obs'')])"
    by simp
  have h3: "set [(''env'', ''dev''), (''team'', ''obs'')] = set (Attributes sample_spec)"
    by (auto simp: sample_spec_def)
  from h1 h2 h3 config_data_deterministic [OF h1 h2 h3, of sample_2f] show ?thesis
    by blast
qed

section \<open>Calls on the store\<close>

lemma traced_fields:
  "trace (traced e w) = trace w @ [e]"
  "tracingconfigs (traced e w) = tracingconfigs w"
  "configmaps (traced e w) = configmaps w"
  "deployments (traced e w) = deployments w"
  "pods (traced e w) = pods w"
  by (simp_all add: traced_def)

lemma Status_Update_fields:
  "trace (snd (Status_Update flt tc w)) =
     trace w @ [Ev_Status_Update (tc_key tc) (Status tc)
                  (flt (Call_Status_Update (Phase (Status tc))) = None)]"
  "tracingconfigs (snd (Status_Update flt tc w)) =
     (if flt (Call_Status_Update (Phase (Status tc))) = None
      then put_status tc (tracingconfigs w) else tracingconfigs w)"
  "configmaps (snd (Status_Update flt tc w)) = configmaps w"
  "deployments (snd (Status_Update flt tc w)) = deployments w"
  "pods (snd (Status_Update flt tc w)) = pods w"
  by (simp_all add: Status_Update_def traced_def split: option.splits)

lemma fail_pass_fields:
  "fst (fail_pass flt tc what err w) = (0, Some err)"
  "trace (snd (fail_pass flt tc what err w)) =
     trace w @ [Ev_Status_Update (tc_key tc)
                  ((Status tc)\<lparr>Phase := ''Failed'', Message := what @ error_string err\<rparr>)
                  (flt (Call_Status_Update ''Failed'') = None)]"
  "tracingconfigs (snd (fail_pass flt tc what err w)) =
     (if flt (Call_Status_Update ''Failed'') = None
      then put_status (tc\<lparr>Status := (Status tc)\<lparr>Phase := ''Failed'', Message := what @ error_string err\<rparr>\<rparr>)
             (tracingconfigs w)
      else tracingconfigs w)"
  "configmaps (snd (fail_pass flt tc what err w)) = configmaps w"
  "deployments (snd (fail_pass flt tc what err w)) = deployments w"
  "pods (snd (fail_pass flt tc what err w)) = pods w"
  by (simp_all add: fail_pass_def Let_def split_beta Status_Update_fields tc_key_def)

lemma report_Applied_fields:
  fixes tc :: "('f, 'sel) TracingConfig"
  defines "applied items now \<equiv>
     \<lparr>Phase = ''Applied'',
      Message = ''Tracing configuration applied to '' @ Sprintf_d (int (length items)) @ '' pods'',
      AppliedAt = Some now, TargetPods = map pod_name items\<rparr>"
  shows
  "fst (report_Applied flt now tc items w) =
     (case flt (Call_Status_Update ''Applied'') of
        None \<Rightarrow> (300, None) | Some m \<Rightarrow> (0, Some (StoreError m)))"
  "trace (snd (report_Applied flt now tc items w)) =
     trace w @ [Ev_Status_Update (tc_key tc) (applied items now)
                  (flt (Call_Status_Update ''Applied'') = None)]"
  "tracingconfigs (snd (report_Applied flt now tc items w)) =
     (if flt (Call_Status_Update ''Applied'') = None
      then put_status (tc\<lparr>Status := applied items now\<rparr>) (tracingconfigs w)
      else tracingconfigs w)"
  "configmaps (snd (report_Applied flt now tc items w)) = configmaps w"
  "deployments (snd (report_Applied flt now tc items w)) = deployments w"
  "pods (snd (report_Applied flt now tc items w)) = pods w"
  by (simp_all add: report_Applied_def Let_def Status_Update_def traced_def tc_key_def
      applied_def split: option.splits)

lemma Update_Deployment_fields:
  "trace (snd (Update_Deployment flt d w)) =
     trace w @ [Ev_Update_Deployment d (flt (Call_Update_Deployment (d_name d)) = None)]"
  "deployments (snd (Update_Deployment flt d w)) =
     (if flt (Call_Update_Deployment (d_name d)) = None
      then put_deployment d (deployments w) else deployments w)"
  "tracingconfigs (snd (Update_Deployment flt d w)) = tracingconfigs w"
  "configmaps (snd (Update_Deployment flt d w)) = configmaps w"
  "pods (snd (Update_Deployment flt d w)) = pods w"
  by (simp_all add: Update_Deployment_def traced_def split: option.splits)

section \<open>The loop over the deployments\<close>

lemma patch_deployment_name: "d_name (fst (patch_deployment n d)) = d_name d"
  by (simp add: patch_deployment_def)

lemma patch_step_fields:
  "trace (patch_step flt n d w) = trace w @ workload_writes flt n [d]"
  "tracingconfigs (patch_step flt n d w) = tracingconfigs w"
  "configmaps (patch_step flt n d w) = configmaps w"
  "pods (patch_step flt n d w) = pods w"
  by (simp_all add: patch_step_def split_beta Update_Deployment_fields workload_writes_def
      patch_deployment_name)

lemma workload_writes_Cons:
  "workload_writes flt n (d # items) = workload_writes flt n [d] @ workload_writes flt n items"
  by (simp add: workload_writes_def)

lemma patch_loop_fields:
  "trace (patch_loop flt n items w) = trace w @ workload_writes flt n items"
  "tracingconfigs (patch_loop flt n items w) = tracingconfigs w"
  "configmaps (patch_loop flt n items w) = configmaps w"
  "pods (patch_loop flt n items w) = pods w"
proof (induction items arbitrary: w)
  case Nil
  { case 1 show ?case by (simp add: workload_writes_def) }
  { case 2 show ?case by simp }
  { case 3 show ?case by simp }
  { case 4 show ?case by simp }
next
  case (Cons d items)
  { case 1 show ?case
      by (simp add: Cons.IH patch_step_fields workload_writes_Cons [of flt n d items]) }
  { case 2 show ?case by (simp add: Cons.IH patch_step_fields) }
  { case 3 show ?case by (simp add: Cons.IH patch_step_fields) }
  { case 4 show ?case by (simp add: Cons.IH patch_step_fields) }
qed

lemma patch_Deployments_fields:
  "trace (patch_Deployments flt opts n w) =
     trace w @ Ev_List_Deployments (fst opts) #
       (case flt Call_List_Deployments of
          None \<Rightarrow> workload_writes flt n
                    (filter (\<lambda>d. listed opts (d_namespace d) (d_labels d)) (deployments w))
        | Some m \<Rightarrow> [])"
  "tracingconfigs (patch_Deployments flt opts n w) = tracingconfigs w"
  "configmaps (patch_Deployments flt opts n w) = configmaps w"
  "pods (patch_Deployments flt opts n w) = pods w"
  by (simp_all add: patch_Deployments_def List_Deployments_def patch_loop_fields traced_fields
      split: option.splits)

section \<open>The paths through a pass\<close>

lemma found_key: "find (\<lambda>t. tc_key t = req) ts = Some tc \<Longrightarrow> tc_key tc = req"
  by (auto simp: find_Some_iff)

lemma find_put_status:
  "find (\<lambda>t. tc_key t = tc_key tc) ts = Some t0 \<Longrightarrow>
     find (\<lambda>t. tc_key t = tc_key tc) (put_status tc ts) = Some (t0\<lparr>Status := Status tc\<rparr>)"
  by (induction ts) (auto simp: put_status_def tc_key_def)

lemma Get_TracingConfig_found:
  "flt Call_Get_TracingConfig = None \<Longrightarrow> find (\<lambda>t. tc_key t = req) (tracingconfigs w) = Some tc \<Longrightarrow>
     Get_TracingConfig flt req w = (Inr tc, traced (Ev_Get_TracingConfig req) w)"
  by (simp add: Get_TracingConfig_def)

text \<open>The config map stage, one line for each of its five outcomes.\<close>

lemma ensure_ConfigMap_paths:
  "ensure_ConfigMap flt tc cm w =
     (let w1 = traced (Ev_Get_ConfigMap (cm_key cm)) w
      in case flt Call_Get_ConfigMap of
           Some m \<Rightarrow> Inl ((0, Some (StoreError m)), w1)
         | None \<Rightarrow>
             (case find (\<lambda>c. cm_key c = cm_key cm) (configmaps w) of
                None \<Rightarrow>
                  (case flt Call_Create_ConfigMap of
                     Some m \<Rightarrow>
                       Inl (fail_pass flt tc ''Failed to create ConfigMap: '' (StoreError m)
                              (traced (Ev_Create_ConfigMap cm False) w1))
                   | None \<Rightarrow>
                       Inr (traced (Ev_Create_ConfigMap cm True)
                              (w1\<lparr>configmaps := configmaps w @ [cm]\<rparr>)))
              | Some existing \<Rightarrow>
                  (case flt Call_Update_ConfigMap of
                     Some m \<Rightarrow>
                       Inl (fail_pass flt tc ''Failed to update ConfigMap: '' (StoreError m)
                              (traced (Ev_Update_ConfigMap (existing\<lparr>Data := Data cm\<rparr>) False) w1))
                   | None \<Rightarrow>
                       Inr (traced (Ev_Update_ConfigMap (existing\<lparr>Data := Data cm\<rparr>) True)
                              (w1\<lparr>configmaps :=
                                    put_configmap (existing\<lparr>Data := Data cm\<rparr>) (configmaps w)\<rparr>)))))"
  by (simp add: ensure_ConfigMap_def Get_ConfigMap_def Create_ConfigMap_def Update_ConfigMap_def
      IgnoreNotFound_def Let_def traced_def split: option.splits)

lemma ensure_ConfigMap_trace:
  "\<exists>es. trace (case ensure_ConfigMap flt tc cm w of Inl (r, w') \<Rightarrow> w' | Inr w' \<Rightarrow> w')
          = trace w @ es"
  by (simp add: ensure_ConfigMap_paths Let_def split_beta fail_pass_fields traced_fields
      split: option.splits)

lemma ensure_ConfigMap_frame:
  "ensure_ConfigMap flt tc cm w = Inr w' \<Longrightarrow>
     tracingconfigs w' = tracingconfigs w \<and> deployments w' = deployments w \<and> pods w' = pods w"
  by (auto simp: ensure_ConfigMap_paths Let_def traced_def split: option.splits)

lemma ensure_ConfigMap_returned_frame:
  "ensure_ConfigMap flt tc cm w = Inl returned \<Longrightarrow>
     deployments (snd returned) = deployments w \<and> pods (snd returned) = pods w \<and>
     configmaps (snd returned) = configmaps w \<and>
     \<not> list_ex config_written (drop (length (trace w)) (trace (snd returned))) \<and>
     \<not> list_ex is_workload_write (drop (length (trace w)) (trace (snd returned)))"
  by (auto simp: ensure_ConfigMap_paths Let_def fail_pass_fields traced_fields
      split: option.splits)

text \<open>The pass of a policy that was found, up to the config map stage.\<close>

lemma Reconcile_found:
  fixes tc :: "('f, 'sel) TracingConfig"
  defines "tc1 \<equiv> tc\<lparr>Status := (Status tc)
      \<lparr>Phase := ''Pending'', Message := ''Processing tracing configuration''\<rparr>\<rparr>"
  defines "ns \<equiv> (if Namespace (Spec tc) = [] then tc_namespace tc else Namespace (Spec tc))"
  assumes "flt Call_Get_TracingConfig = None"
    and "find (\<lambda>t. tc_key t = req) (tracingconfigs w) = Some tc"
  shows "Reconcile lib flt now req w =
     (let w1 = snd (Status_Update flt tc1 (traced (Ev_Get_TracingConfig req) w))
      in case resolve_selector lib (Selector (Spec tc)) of
           Inl m \<Rightarrow> fail_pass flt tc1 ''Invalid label selector: '' (InvalidSelector m) w1
         | Inr selector \<Rightarrow>
             (let w2 = traced (Ev_List_Pods ns) w1
              in case flt Call_List_Pods of
                   Some m \<Rightarrow> fail_pass flt tc1 ''Failed to list pods: '' (StoreError m) w2
                 | None \<Rightarrow>
                     (case ensure_ConfigMap flt tc1
                             \<lparr>cm_namespace = ns, cm_name = tc_name tc @ ''-tracing-config'',
                              cm_labels = [], Data = config_data (Sprintf_2f lib) (Spec tc)\<rparr> w2 of
                        Inl returned \<Rightarrow> returned
                      | Inr w3 \<Rightarrow>
                          report_Applied flt now tc1
                            (filter (\<lambda>p. listed (ns, selector) (pod_namespace p) (pod_labels p))
                               (pods w))
                            (patch_Deployments flt (ns, selector)
                               (tc_name tc @ ''-tracing-config'') w3))))"
proof -
  have G: "Get_TracingConfig flt req w = (Inr tc, traced (Ev_Get_TracingConfig req) w)"
    using assms(3,4) by (rule Get_TracingConfig_found)
  show ?thesis
    unfolding Reconcile_def G
    by (simp add: Let_def split_beta tc1_def ns_def List_Pods_def Status_Update_fields
        traced_fields split: sum.splits option.splits)
qed

section \<open>The short circuit on a rejected selector\<close>

lemmas sample_defs = sample_world_def sample_policy_def sample_spec_def sample_library_def
  sample_req_def api_deployment_def worker_deployment_def cron_deployment_def
  other_deployment_def batch_deployment_def sample_pods_def secret_ref_def failing_def
  no_faults_def bad_selector_policy_def bad_selector_world_def stale_policy_def
  stale_world_def status_updates_fail_def

text \<open>
  C6. When the selector of the policy is rejected by \<^verbatim>\<open>LabelSelectorAsSelector\<close>, the
  pass makes three calls and no more: it reads the policy, writes status \<^verbatim>\<open>Pending\<close> and
  writes status \<^verbatim>\<open>Failed\<close> with a message that carries the selector's error. No config
  map is read, created or updated, nothing is listed, no deployment is written, and the
  store holds phase \<^verbatim>\<open>Failed\<close> when that status write goes through.
\<close>

theorem invalid_selector_short_circuit:
  fixes tc :: "('f, 'sel) TracingConfig"
  defines "pending \<equiv>
     (Status tc)\<lparr>Phase := ''Pending'', Message := ''Processing tracing configuration''\<rparr>"
  defines "failed m \<equiv>
     (Status tc)\<lparr>Phase := ''Failed'', Message := ''Invalid label selector: '' @ m\<rparr>"
  assumes "flt Call_Get_TracingConfig = None"
    and "find (\<lambda>t. tc_key t = req) (tracingconfigs w) = Some tc"
    and "Selector (Spec tc) = Some ls"
    and "LabelSelectorAsSelector lib ls = Inl m"
  shows "fst (Reconcile lib flt now req w) = (0, Some (InvalidSelector m)) \<and>
         new_events w (snd (Reconcile lib flt now req w)) =
           [Ev_Get_TracingConfig req,
            Ev_Status_Update req pending (flt (Call_Status_Update ''Pending'') = None),
            Ev_Status_Update req (failed m) (flt (Call_Status_Update ''Failed'') = None)] \<and>
         configmaps (snd (Reconcile lib flt now req w)) = configmaps w \<and>
         deployments (snd (Reconcile lib flt now req w)) = deployments w \<and>
         (flt (Call_Status_Update ''Failed'') = None \<longrightarrow>
            stored_status req (snd (Reconcile lib flt now req w)) = Some (failed m))"
proof -
  let ?tc1 = "tc\<lparr>Status := pending\<rparr>"
  let ?w1 = "snd (Status_Update flt ?tc1 (traced (Ev_Get_TracingConfig req) w))"
  have key: "tc_key tc = req" using assms(4) by (rule found_key)
  have sel: "resolve_selector lib (Selector (Spec tc)) = Inl m"
    using assms(5,6) by (simp add: resolve_selector_def)
  have R: "Reconcile lib flt now req w =
      fail_pass flt ?tc1 ''Invalid label selector: '' (InvalidSelector m) ?w1"
    using sel by (simp add: Reconcile_found [where flt=flt and req=req and w=w and tc=tc, OF assms(3,4)] pending_def)
  have k1: "tc_key ?tc1 = req" using key by (simp add: tc_key_def)
  have st: "stored_status req (snd (Reconcile lib flt now req w)) = Some (failed m)"
    if ok: "flt (Call_Status_Update ''Failed'') = None"
  proof -
    let ?tcF = "?tc1\<lparr>Status := failed m\<rparr>"
    have kF: "tc_key ?tcF = req" using key by (simp add: tc_key_def)
    have "\<exists>t0. find (\<lambda>t. tc_key t = req) (tracingconfigs ?w1) = Some t0"
      using assms(4) find_put_status [of ?tc1 "tracingconfigs w" tc] k1
      by (auto simp: Status_Update_fields traced_fields pending_def)
    then obtain t0 where t0: "find (\<lambda>t. tc_key t = req) (tracingconfigs ?w1) = Some t0" ..
    have "tracingconfigs (snd (Reconcile lib flt now req w)) =
        put_status ?tcF (tracingconfigs ?w1)"
      unfolding R using ok by (simp add: fail_pass_fields pending_def failed_def)
    moreover from t0 kF
    have "find (\<lambda>t. tc_key t = req) (put_status ?tcF (tracingconfigs ?w1)) =
        Some (t0\<lparr>Status := failed m\<rparr>)"
      using find_put_status [of ?tcF "tracingconfigs ?w1" t0] by simp
    ultimately show ?thesis by (simp add: stored_status_def)
  qed
  show ?thesis
    unfolding R using st [unfolded R] k1
    by (simp add: fail_pass_fields Status_Update_fields traced_fields new_events_def
        pending_def failed_def)
qed

theorem invalid_selector_short_circuit_witness:
  "no_faults Call_Get_TracingConfig = None \<and>
   find (\<lambda>t. tc_key t = sample_req) (tracingconfigs bad_selector_world) = Some bad_selector_policy \<and>
   Selector (Spec bad_selector_policy) = Some (BadOperator ''Near'') \<and>
   LabelSelectorAsSelector sample_library (BadOperator ''Near'') =
     Inl ''Near is not a valid label selector operator'' \<and>
   fst (Reconcile sample_library no_faults 7 sample_req bad_selector_world) =
     (0, Some (InvalidSelector ''Near is not a valid label selector operator'')) \<and>
   new_events bad_selector_world
       (snd (Reconcile sample_library no_faults 7 sample_req bad_selector_world)) =
     [Ev_Get_TracingConfig sample_req,
      Ev_Status_Update sample_req
        \<lparr>Phase = ''Pending'', Message = ''Processing tracing configuration'',
         AppliedAt = None, TargetPods = []\<rparr> True,
      Ev_Status_Update sample_req
        \<lparr>Phase = ''Failed'',
         Message = ''Invalid label selector: Near is not a valid label selector operator'',
         AppliedAt = None, TargetPods = []\<rparr> True] \<and>
   configmaps (snd (Reconcile sample_library no_faults 7 sample_req bad_selector_world)) = [] \<and>
   stored_status sample_req
       (snd (Reconcile sample_library no_faults 7 sample_req bad_selector_world)) =
     Some \<lparr>Phase = ''Failed'',
           Message = ''Invalid label selector: Near is not a valid label selector operator'',
           AppliedAt = None, TargetPods = []\<rparr>"
proof -
  have h1: "no_faults Call_Get_TracingConfig = None"
    by (simp add: no_faults_def)
  have h2: "find (\<lambda>t. tc_key t = sample_req) (tracingconfigs bad_selector_world) =
      Some bad_selector_policy"
    by (simp add: sample_defs tc_key_def)
  have h3: "Selector (Spec bad_selector_policy) = Some (BadOperator ''Near'')"
    by (simp add: sample_defs)
  have h4: "LabelSelectorAsSelector sample_library (BadOperator ''Near'') =
      Inl ''Near is not a valid label selector operator''"
    by (simp add: sample_defs)
  have c: "configmaps bad_selector_world = []"
    "Status bad_selector_policy = \<lparr>Phase = [], Message = [], AppliedAt = None, TargetPods = []\<rparr>"
    "no_faults (Call_Status_Update ''Pending'') = None"
    "no_faults (Call_Status_Update ''Failed'') = None"
    by (simp_all add: sample_defs)
  from h1 h2 h3 h4 invalid_selector_short_circuit [where flt=no_faults and req=sample_req and w=bad_selector_world
      and tc=bad_selector_policy and now=7, OF h1 h2 h3 h4] c
  show ?thesis by simp
qed

section \<open>Patching a workload\<close>

lemma patch_container_fixed: "patch_container n c = c \<longleftrightarrow> envFromExists n c"
proof
  assume eq: "patch_container n c = c"
  show "envFromExists n c"
  proof (rule ccontr)
    assume "\<not> envFromExists n c"
    then have "EnvFrom (patch_container n c) = EnvFrom c @ [config_ref n]"
      by (simp add: patch_container_def)
    with eq show False by simp
  qed
next
  assume "envFromExists n c"
  then show "patch_container n c = c" by (simp add: patch_container_def)
qed

lemma refers_to_config_ref: "refers_to n (config_ref n)"
  by (simp add: refers_to_def config_ref_def)

lemma envFromExists_patch_container: "envFromExists n (patch_container n c)"
  by (simp add: patch_container_def envFromExists_def refers_to_config_ref)

lemma count_refs_patch_container:
  "count_refs n (patch_container n c) = max 1 (count_refs n c)"
proof (cases "envFromExists n c")
  case True
  then have "filter (refers_to n) (EnvFrom c) \<noteq> []"
    by (simp add: envFromExists_def list_ex_iff filter_empty_conv)
  then have "0 < count_refs n c" by (simp add: count_refs_def)
  with True show ?thesis by (simp add: patch_container_def)
next
  case False
  then have "filter (refers_to n) (EnvFrom c) = []"
    by (simp add: envFromExists_def list_ex_iff filter_empty_conv)
  with False show ?thesis
    by (simp add: patch_container_def count_refs_def refers_to_config_ref)
qed

lemma patch_deployment_updated:
  "snd (patch_deployment n d) \<longleftrightarrow> (\<exists>c \<in> set (Containers d). \<not> envFromExists n c)"
  by (simp add: patch_deployment_def list_ex_iff)

lemma patch_deployment_modified:
  "fst (patch_deployment n d) \<noteq> d \<longleftrightarrow> (\<exists>c \<in> set (Containers d). \<not> envFromExists n c)"
proof -
  have "fst (patch_deployment n d) = d \<longleftrightarrow> map (patch_container n) (Containers d) = Containers d"
  proof
    assume "fst (patch_deployment n d) = d"
    then have "Containers (fst (patch_deployment n d)) = Containers d" by simp
    then show "map (patch_container n) (Containers d) = Containers d"
      by (simp add: patch_deployment_def)
  next
    assume "map (patch_container n) (Containers d) = Containers d"
    then show "fst (patch_deployment n d) = d" by (simp add: patch_deployment_def)
  qed
  also have "\<dots> \<longleftrightarrow> (\<forall>c \<in> set (Containers d). patch_container n c = c)"
    by (simp add: map_idI map_eq_conv [where g = "\<lambda>c. c", simplified])
  finally show ?thesis by (simp add: patch_container_fixed)
qed

lemma patch_deployment_settled: "\<not> snd (patch_deployment n (fst (patch_deployment n d)))"
  by (simp add: patch_deployment_def list_ex_iff envFromExists_patch_container)

lemma patch_deployment_twice:
  "fst (patch_deployment n (fst (patch_deployment n d))) = fst (patch_deployment n d)"
  using patch_deployment_modified [of n "fst (patch_deployment n d)"]
    patch_deployment_settled [of n d]
  by (simp add: patch_deployment_updated)

lemma patch_deployment_repeated:
  "((fst \<circ> patch_deployment n) ^^ Suc N) d = fst (patch_deployment n d)"
  by (induction N) (simp_all add: patch_deployment_twice)

lemma workload_writes_concat:
  "workload_writes flt n items =
     concat (map (\<lambda>d. if \<exists>c \<in> set (Containers d). \<not> envFromExists n c
                       then [Ev_Update_Deployment (fst (patch_deployment n d))
                               (flt (Call_Update_Deployment (d_name d)) = None)]
                       else []) items)"
  by (induction items) (simp_all add: workload_writes_def patch_deployment_updated)

text \<open>
  C8. In a pass that lists the deployments, each listed deployment is written back once,
  whole, exactly when one of its containers lacked the reference, which is exactly when
  the patched deployment differs from the listed one; a deployment whose containers all
  carry the reference causes no call. The patched deployment is the listed one with the
  reference appended to the lists that lacked it, so the references that were there stay,
  in their order.
\<close>

theorem workload_written_iff_modified:
  fixes opts :: list_opts and w :: "('f, 'sel) world"
  defines "items \<equiv> filter (\<lambda>d. listed opts (d_namespace d) (d_labels d)) (deployments w)"
  assumes "flt Call_List_Deployments = None"
  shows "new_events w (patch_Deployments flt opts n w) =
           Ev_List_Deployments (fst opts)
           # concat (map (\<lambda>d. if \<exists>c \<in> set (Containers d). \<not> envFromExists n c
                               then [Ev_Update_Deployment (fst (patch_deployment n d))
                                       (flt (Call_Update_Deployment (d_name d)) = None)]
                               else []) items) \<and>
         (\<forall>d \<in> set items.
            ((\<exists>c \<in> set (Containers d). \<not> envFromExists n c) \<longleftrightarrow> fst (patch_deployment n d) \<noteq> d) \<and>
            fst (patch_deployment n d) =
              d\<lparr>Containers :=
                  map (\<lambda>c. c\<lparr>EnvFrom := EnvFrom c @
                                (if envFromExists n c then [] else [config_ref n])\<rparr>)
                    (Containers d)\<rparr>)"
proof -
  have events: "new_events w (patch_Deployments flt opts n w) =
      Ev_List_Deployments (fst opts)
      # concat (map (\<lambda>d. if \<exists>c \<in> set (Containers d). \<not> envFromExists n c
                          then [Ev_Update_Deployment (fst (patch_deployment n d))
                                  (flt (Call_Update_Deployment (d_name d)) = None)]
                          else []) items)"
    using assms(2)
    by (simp add: new_events_def patch_Deployments_fields items_def workload_writes_concat)
  have shape: "fst (patch_deployment n d) =
      d\<lparr>Containers :=
          map (\<lambda>c. c\<lparr>EnvFrom := EnvFrom c @ (if envFromExists n c then [] else [config_ref n])\<rparr>)
            (Containers d)\<rparr>" for d
    by (simp add: patch_deployment_def patch_container_def cong: map_cong)
  have modified: "(\<exists>c \<in> set (Containers d). \<not> envFromExists n c) \<longleftrightarrow>
      fst (patch_deployment n d) \<noteq> d" for d
    by (simp only: patch_deployment_modified)
  from events shape modified show ?thesis by blast
qed

theorem workload_written_iff_modified_witness:
  "no_faults Call_List_Deployments = None \<and>
   new_events sample_world
       (patch_Deployments no_faults (''default'', None) ''demo-tracing-config'' sample_world) =
     [Ev_List_Deployments ''default'',
      Ev_Update_Deployment
        (api_deployment\<lparr>Containers :=
           [\<lparr>c_name = ''api'', c_image = ''api:1'',
             EnvFrom = [config_ref ''demo-tracing-config'']\<rparr>]\<rparr>) True,
      Ev_Update_Deployment
        (other_deployment\<lparr>Containers :=
           [\<lparr>c_name = ''other'', c_image = ''other:1'',
             EnvFrom = [config_ref ''demo-tracing-config'']\<rparr>]\<rparr>) True,
      Ev_Update_Deployment
        (worker_deployment\<lparr>Containers :=
           [\<lparr>c_name = ''worker'', c_image = ''worker:1'',
             EnvFrom = [secret_ref, config_ref ''demo-tracing-config'']\<rparr>]\<rparr>) True,
      Ev_Update_Deployment
        (batch_deployment\<lparr>Containers :=
           [\<lparr>c_name = ''batch'', c_image = ''batch:1'',
             EnvFrom = [config_ref ''demo-tracing-config'']\<rparr>]\<rparr>) True] \<and>
   fst (patch_deployment ''demo-tracing-config'' cron_deployment) = cron_deployment"
proof -
  have h: "no_faults Call_List_Deployments = None"
    by (simp add: no_faults_def)
  from h workload_written_iff_modified [where flt=no_faults and opts="(''default'', None)"
      and w=sample_world and n="''demo-tracing-config''", OF h]
  show ?thesis
    by (simp add: sample_world_def api_deployment_def other_deployment_def
        worker_deployment_def cron_deployment_def batch_deployment_def secret_ref_def
        config_ref_def no_faults_def
        listed_def in_namespace_def selects_def envFromExists_def refers_to_def)
qed

text \<open>
  C5, as the code has it. Patching a deployment any number of times, at least once, gives
  what patching it once gives. A container then holds one reference to the config map
  when it held none, and as many as it held when it held some: a container that carries
  the reference is left as it is. The claim's "exactly one" fails for a container whose
  author listed the config map more than once.
\<close>

theorem references_never_multiply:
  "((fst \<circ> patch_deployment n) ^^ Suc N) d = fst (patch_deployment n d) \<and>
   map (count_refs n) (Containers (fst (patch_deployment n d))) =
     map (\<lambda>c. max 1 (count_refs n c)) (Containers d) \<and>
   (\<forall>c \<in> set (Containers d). envFromExists n c \<longrightarrow> patch_container n c = c)"
proof (intro conjI)
  show "((fst \<circ> patch_deployment n) ^^ Suc N) d = fst (patch_deployment n d)"
    by (rule patch_deployment_repeated)
  show "map (count_refs n) (Containers (fst (patch_deployment n d))) =
      map (\<lambda>c. max 1 (count_refs n c)) (Containers d)"
    by (simp add: patch_deployment_def count_refs_patch_container)
  show "\<forall>c \<in> set (Containers d). envFromExists n c \<longrightarrow> patch_container n c = c"
    by (simp add: patch_container_fixed)
qed

theorem references_never_multiply_witness:
  "((fst \<circ> patch_deployment ''demo-tracing-config'') ^^ Suc 2) worker_deployment =
     worker_deployment\<lparr>Containers :=
       [\<lparr>c_name = ''worker'', c_image = ''worker:1'',
         EnvFrom = [secret_ref, config_ref ''demo-tracing-config'']\<rparr>]\<rparr> \<and>
   map (count_refs ''demo-tracing-config'')
     (Containers (fst (patch_deployment ''demo-tracing-config'' worker_deployment))) = [1] \<and>
   envFromExists ''demo-tracing-config'' (hd (Containers cron_deployment)) \<and>
   patch_container ''demo-tracing-config'' (hd (Containers cron_deployment)) =
     hd (Containers cron_deployment)"
  using references_never_multiply [where n="''demo-tracing-config''" and N=2 and d=worker_deployment]
    references_never_multiply [where n="''demo-tracing-config''" and N=0 and d=cron_deployment]
  by (simp add: worker_deployment_def cron_deployment_def secret_ref_def config_ref_def
      patch_deployment_def patch_container_def envFromExists_def refers_to_def count_refs_def)

text \<open>
  The claim C5 as it stands fails for a container that already lists the config map
  twice: after three passes it still holds two references, not one.
\<close>

theorem two_references_stay_two:
  "map (count_refs ''demo-tracing-config'')
     (Containers (((fst \<circ> patch_deployment ''demo-tracing-config'') ^^ 3) twice_referenced)) = [2]"
  by (simp add: numeral_3_eq_3 twice_referenced_def config_ref_def patch_deployment_def
      patch_container_def envFromExists_def refers_to_def count_refs_def)

section \<open>Failures of the store\<close>

lemmas pass_defs = Reconcile_def Get_TracingConfig_def Status_Update_def List_Pods_def
  Get_ConfigMap_def Create_ConfigMap_def Update_ConfigMap_def List_Deployments_def
  Update_Deployment_def patch_Deployments_def patch_step_def patch_deployment_def
  patch_container_def envFromExists_def refers_to_def config_ref_def fail_pass_def
  ensure_ConfigMap_def report_Applied_def resolve_selector_def traced_def tc_key_def cm_key_def
  d_key_def listed_def in_namespace_def selects_def put_status_def put_configmap_def
  put_deployment_def IgnoreNotFound_def Let_def new_events_def stored_status_def

lemma decimal_3: "decimal (Suc (Suc (Suc 0))) = ''3''"
  by code_simp

lemma decimal_three: "decimal 3 = ''3''"
  by code_simp

text \<open>
  C2, at a pass in which the read of the config map fails with an error other than
  \<^verbatim>\<open>NotFound\<close> (lines 247-250). The pass returns the error after four calls, none of
  them a status update with phase \<^verbatim>\<open>Failed\<close>, and the store is left with phase
  \<^verbatim>\<open>Pending\<close>. No deployment is listed or written.
\<close>

theorem config_map_read_failure_keeps_pending:
  "fst (Reconcile sample_library (failing Call_Get_ConfigMap ''timeout'') 7 sample_req
          sample_world) = (0, Some (StoreError ''timeout'')) \<and>
   new_events sample_world
     (snd (Reconcile sample_library (failing Call_Get_ConfigMap ''timeout'') 7 sample_req
             sample_world)) =
     [Ev_Get_TracingConfig sample_req,
      Ev_Status_Update sample_req
        \<lparr>Phase = ''Pending'', Message = ''Processing tracing configuration'',
         AppliedAt = None, TargetPods = []\<rparr> True,
      Ev_List_Pods ''default'',
      Ev_Get_ConfigMap (''default'', ''demo-tracing-config'')] \<and>
   stored_status sample_req
     (snd (Reconcile sample_library (failing Call_Get_ConfigMap ''timeout'') 7 sample_req
             sample_world)) =
     Some \<lparr>Phase = ''Pending'', Message = ''Processing tracing configuration'',
           AppliedAt = None, TargetPods = []\<rparr>"
  by (simp add: sample_defs pass_defs)

lemma Reconcile_not_fetched:
  "flt Call_Get_TracingConfig = Some m \<Longrightarrow>
     Reconcile lib flt now req w =
       ((0, Some (StoreError m)), traced (Ev_Get_TracingConfig req) w)"
  by (simp add: Reconcile_def Get_TracingConfig_def IgnoreNotFound_def)

lemma ensure_ConfigMap_written:
  "ensure_ConfigMap flt tc cm w = Inr w' \<Longrightarrow>
     \<exists>e. trace w' = trace w @ [Ev_Get_ConfigMap (cm_key cm), e] \<and> config_written e \<and>
         \<not> is_workload_write e"
  by (auto simp: ensure_ConfigMap_paths Let_def traced_def split: option.splits)

lemma filter_workload_writes:
  "filter is_workload_write (workload_writes flt n items) = workload_writes flt n items"
  by (simp add: workload_writes_def filter_map o_def)

lemma stored_after_put:
  assumes "find (\<lambda>t. tc_key t = req) ts = Some t0" and "tc_key tc = req"
  shows "map_option Status (find (\<lambda>t. tc_key t = req) (put_status tc ts)) = Some (Status tc)"
  using find_put_status [of tc ts t0] assms by simp

lemma found_after_put:
  assumes "find (\<lambda>t. tc_key t = req) ts = Some t0" and "tc_key tc = req"
  shows "find (\<lambda>t. tc_key t = req) (put_status tc ts) = Some (t0\<lparr>Status := Status tc\<rparr>)"
  using find_put_status [of tc ts t0] assms by simp

text \<open>
  C3, as the code has it. In a pass whose config map write succeeded, the last call is
  the status update with phase \<^verbatim>\<open>Applied\<close>, whose message counts the pods that the
  listing at the start of the pass matched, whether or not the listing of the
  deployments succeeded. When that listing succeeded, every listed deployment with a
  container that lacks the reference is written, the outcome of one write having no
  effect on the others; when it failed, none is. The claim's "Applied only if the
  workload listing succeeded" is not what lines 266-268 do: they log the error and go on.
\<close>

theorem applied_despite_workload_failures:
  fixes tc :: "('f, 'sel) TracingConfig" and w :: "('f, 'sel) world"
    and lib :: "('f, 'sel) library" and flt :: faults and now :: nat and req :: object_key
    and selector :: "(labels \<Rightarrow> bool) option"
  defines "ns \<equiv> (if Namespace (Spec tc) = [] then tc_namespace tc else Namespace (Spec tc))"
  defines "w' \<equiv> snd (Reconcile lib flt now req w)"
  assumes found: "find (\<lambda>t. tc_key t = req) (tracingconfigs w) = Some tc"
    and sel: "resolve_selector lib (Selector (Spec tc)) = Inr selector"
    and written: "list_ex config_written (new_events w (snd (Reconcile lib flt now req w)))"
  defines "matching \<equiv>
     filter (\<lambda>p. listed (ns, selector) (pod_namespace p) (pod_labels p)) (pods w)"
  defines "applied \<equiv>
     \<lparr>Phase = ''Applied'',
      Message = ''Tracing configuration applied to '' @ Sprintf_d (int (length matching))
                  @ '' pods'',
      AppliedAt = Some now, TargetPods = map pod_name matching\<rparr>"
  shows "last (new_events w w') =
           Ev_Status_Update req applied (flt (Call_Status_Update ''Applied'') = None) \<and>
         filter is_workload_write (new_events w w') =
           (case flt Call_List_Deployments of
              None \<Rightarrow>
                workload_writes flt (tc_name tc @ ''-tracing-config'')
                  (filter (\<lambda>d. listed (ns, selector) (d_namespace d) (d_labels d))
                     (deployments w))
            | Some m \<Rightarrow> []) \<and>
         (flt (Call_Status_Update ''Applied'') = None \<longrightarrow>
            stored_status req w' = Some applied \<and>
            fst (Reconcile lib flt now req w) = (300, None))"
proof -
  let ?tc1 = "tc\<lparr>Status := (Status tc)
      \<lparr>Phase := ''Pending'', Message := ''Processing tracing configuration''\<rparr>\<rparr>"
  let ?w1 = "snd (Status_Update flt ?tc1 (traced (Ev_Get_TracingConfig req) w))"
  let ?w2 = "traced (Ev_List_Pods ns) ?w1"
  let ?n = "tc_name tc @ ''-tracing-config''"
  let ?cm = "\<lparr>cm_namespace = ns, cm_name = ?n, cm_labels = [],
              Data = config_data (Sprintf_2f lib) (Spec tc)\<rparr>"
  have key: "tc_key ?tc1 = req" using found [THEN found_key] by (simp add: tc_key_def)
  have fetched: "flt Call_Get_TracingConfig = None"
  proof (cases "flt Call_Get_TracingConfig")
    case (Some m)
    with written show ?thesis
      by (simp add: Reconcile_not_fetched new_events_def traced_fields)
  qed simp
  note R = Reconcile_found [where flt=flt and req=req and w=w and tc=tc, OF fetched found,
      of lib now, folded ns_def]
  have t2: "trace ?w2 = trace w @
      [Ev_Get_TracingConfig req,
       Ev_Status_Update req (Status ?tc1) (flt (Call_Status_Update ''Pending'') = None),
       Ev_List_Pods ns]"
    using key by (simp add: Status_Update_fields traced_fields)
  have pods_ok: "flt Call_List_Pods = None"
  proof (cases "flt Call_List_Pods")
    case (Some m)
    with written sel key show ?thesis
      by (simp add: R new_events_def fail_pass_fields t2)
  qed simp
  have "\<exists>w3. ensure_ConfigMap flt ?tc1 ?cm ?w2 = Inr w3"
  proof (cases "ensure_ConfigMap flt ?tc1 ?cm ?w2")
    case (Inl returned)
    from ensure_ConfigMap_returned_frame [OF Inl]
    have no: "\<not> list_ex config_written (drop (length (trace ?w2)) (trace (snd returned)))"
      by blast
    from ensure_ConfigMap_trace [of flt ?tc1 ?cm ?w2] Inl
    obtain es where es: "trace (snd returned) = trace ?w2 @ es"
      by (cases returned) auto
    from written sel pods_ok Inl no es show ?thesis
      by (simp add: R new_events_def t2)
  qed blast
  then obtain w3 where w3: "ensure_ConfigMap flt ?tc1 ?cm ?w2 = Inr w3" ..
  from ensure_ConfigMap_written [OF w3] obtain e
    where e: "trace w3 = trace ?w2 @ [Ev_Get_ConfigMap (cm_key ?cm), e]"
      "\<not> is_workload_write e" by blast
  from ensure_ConfigMap_frame [OF w3]
  have frame: "tracingconfigs w3 = tracingconfigs ?w1" "deployments w3 = deployments w"
    "pods w3 = pods w"
    by (simp_all add: traced_fields Status_Update_fields)
  have Rw: "Reconcile lib flt now req w =
      report_Applied flt now ?tc1 matching (patch_Deployments flt (ns, selector) ?n w3)"
    using sel pods_ok w3 by (simp add: R matching_def)
  have events: "new_events w w' =
      [Ev_Get_TracingConfig req,
       Ev_Status_Update req (Status ?tc1) (flt (Call_Status_Update ''Pending'') = None),
       Ev_List_Pods ns, Ev_Get_ConfigMap (cm_key ?cm), e, Ev_List_Deployments ns]
      @ (case flt Call_List_Deployments of
           None \<Rightarrow>
             workload_writes flt ?n
               (filter (\<lambda>d. listed (ns, selector) (d_namespace d) (d_labels d)) (deployments w))
         | Some m \<Rightarrow> [])
      @ [Ev_Status_Update req applied (flt (Call_Status_Update ''Applied'') = None)]"
    unfolding w'_def Rw using key
    by (simp add: new_events_def report_Applied_fields patch_Deployments_fields e t2 frame
        applied_def split: option.splits)
  have last: "last (new_events w w') =
      Ev_Status_Update req applied (flt (Call_Status_Update ''Applied'') = None)"
    unfolding events by simp
  have writes: "filter is_workload_write (new_events w w') =
      (case flt Call_List_Deployments of
         None \<Rightarrow>
           workload_writes flt ?n
             (filter (\<lambda>d. listed (ns, selector) (d_namespace d) (d_labels d)) (deployments w))
       | Some m \<Rightarrow> [])"
    unfolding events using e(2) by (simp add: filter_workload_writes split: option.splits)
  have stored: "stored_status req w' = Some applied \<and>
      fst (Reconcile lib flt now req w) = (300, None)"
    if ok: "flt (Call_Status_Update ''Applied'') = None"
  proof -
    have "\<exists>t0. find (\<lambda>t. tc_key t = req) (tracingconfigs ?w1) = Some t0"
      using found found_after_put [OF found key]
      by (auto simp: Status_Update_fields traced_fields)
    then obtain t0 where t0: "find (\<lambda>t. tc_key t = req) (tracingconfigs ?w1) = Some t0" ..
    have kA: "tc_key (?tc1\<lparr>Status := applied\<rparr>) = req" using key by (simp add: tc_key_def)
    have "tracingconfigs w' = put_status (?tc1\<lparr>Status := applied\<rparr>) (tracingconfigs ?w1)"
      unfolding w'_def Rw using ok
      by (simp add: report_Applied_fields patch_Deployments_fields frame applied_def)
    with stored_after_put [OF t0 kA] ok show ?thesis
      by (simp add: stored_status_def Rw report_Applied_fields)
  qed
  from last writes stored show ?thesis by blast
qed

theorem applied_despite_workload_failures_witness:
  "find (\<lambda>t. tc_key t = sample_req) (tracingconfigs sample_world) = Some sample_policy \<and>
   resolve_selector sample_library (Selector (Spec sample_policy)) =
     Inr (Some (\<lambda>ls. list_all (\<lambda>(k, v). map_of ls k = Some v) [(''app'', ''svc-a'')])) \<and>
   list_ex config_written
     (new_events sample_world
        (snd (Reconcile sample_library (failing (Call_Update_Deployment ''worker'') ''conflict'')
                7 sample_req sample_world))) \<and>
   filter is_workload_write
     (new_events sample_world
        (snd (Reconcile sample_library (failing (Call_Update_Deployment ''worker'') ''conflict'')
                7 sample_req sample_world))) =
     [Ev_Update_Deployment
        (api_deployment\<lparr>Containers :=
           [\<lparr>c_name = ''api'', c_image = ''api:1'',
             EnvFrom = [config_ref ''demo-tracing-config'']\<rparr>]\<rparr>) True,
      Ev_Update_Deployment
        (worker_deployment\<lparr>Containers :=
           [\<lparr>c_name = ''worker'', c_image = ''worker:1'',
             EnvFrom = [secret_ref, config_ref ''demo-tracing-config'']\<rparr>]\<rparr>) False,
      Ev_Update_Deployment
        (batch_deployment\<lparr>Containers :=
           [\<lparr>c_name = ''batch'', c_image = ''batch:1'',
             EnvFrom = [config_ref ''demo-tracing-config'']\<rparr>]\<rparr>) True] \<and>
   stored_status sample_req
     (snd (Reconcile sample_library (failing (Call_Update_Deployment ''worker'') ''conflict'')
             7 sample_req sample_world)) =
     Some \<lparr>Phase = ''Applied'', Message = ''Tracing configuration applied to 3 pods'',
           AppliedAt = Some 7, TargetPods = [''api-1'', ''worker-1'', ''cron-1'']\<rparr>"
proof -
  have h1: "find (\<lambda>t. tc_key t = sample_req) (tracingconfigs sample_world) = Some sample_policy"
    by (simp add: sample_defs tc_key_def)
  have h2: "resolve_selector sample_library (Selector (Spec sample_policy)) =
      Inr (Some (\<lambda>ls. list_all (\<lambda>(k, v). map_of ls k = Some v) [(''app'', ''svc-a'')]))"
    by (simp add: sample_defs resolve_selector_def)
  have h3: "list_ex config_written
     (new_events sample_world
        (snd (Reconcile sample_library (failing (Call_Update_Deployment ''worker'') ''conflict'')
                7 sample_req sample_world)))"
    by (simp add: sample_defs pass_defs)
  have c: "filter is_workload_write
     (new_events sample_world
        (snd (Reconcile sample_library (failing (Call_Update_Deployment ''worker'') ''conflict'')
                7 sample_req sample_world))) =
     [Ev_Update_Deployment
        (api_deployment\<lparr>Containers :=
           [\<lparr>c_name = ''api'', c_image = ''api:1'',
             EnvFrom = [config_ref ''demo-tracing-config'']\<rparr>]\<rparr>) True,
      Ev_Update_Deployment
        (worker_deployment\<lparr>Containers :=
           [\<lparr>c_name = ''worker'', c_image = ''worker:1'',
             EnvFrom = [secret_ref, config_ref ''demo-tracing-config'']\<rparr>]\<rparr>) False,
      Ev_Update_Deployment
        (batch_deployment\<lparr>Containers :=
           [\<lparr>c_name = ''batch'', c_image = ''batch:1'',
             EnvFrom = [config_ref ''demo-tracing-config'']\<rparr>]\<rparr>) True] \<and>
   stored_status sample_req
     (snd (Reconcile sample_library (failing (Call_Update_Deployment ''worker'') ''conflict'')
             7 sample_req sample_world)) =
     Some \<lparr>Phase = ''Applied'', Message = ''Tracing configuration applied to 3 pods'',
           AppliedAt = Some 7, TargetPods = [''api-1'', ''worker-1'', ''cron-1'']\<rparr>"
    using applied_despite_workload_failures
      [where flt="failing (Call_Update_Deployment ''worker'') ''conflict''"
        and req=sample_req and w=sample_world and tc=sample_policy and lib=sample_library
        and now=7, OF h1 h2 h3]
    by (simp add: sample_defs workload_writes_def patch_deployment_def patch_container_def
        envFromExists_def refers_to_def config_ref_def listed_def in_namespace_def selects_def
        Sprintf_d_def decimal_3 decimal_three)
  from h1 h2 h3 c show ?thesis by blast
qed

text \<open>
  The claim C3 as it stands fails on the sample cluster when the listing of the
  deployments fails: the config map has been created, the listing is attempted and
  fails, no deployment is written, and the store ends with phase \<^verbatim>\<open>Applied\<close>.
\<close>

theorem applied_after_failed_workload_listing:
  "list_ex config_written
     (new_events sample_world
        (snd (Reconcile sample_library (failing Call_List_Deployments ''timeout'') 7 sample_req
                sample_world))) \<and>
   failing Call_List_Deployments ''timeout'' Call_List_Deployments = Some ''timeout'' \<and>
   Ev_List_Deployments ''default'' \<in> set
     (new_events sample_world
        (snd (Reconcile sample_library (failing Call_List_Deployments ''timeout'') 7 sample_req
                sample_world))) \<and>
   filter is_workload_write
     (new_events sample_world
        (snd (Reconcile sample_library (failing Call_List_Deployments ''timeout'') 7 sample_req
                sample_world))) = [] \<and>
   stored_status sample_req
     (snd (Reconcile sample_library (failing Call_List_Deployments ''timeout'') 7 sample_req
             sample_world)) =
     Some \<lparr>Phase = ''Applied'', Message = ''Tracing configuration applied to 3 pods'',
           AppliedAt = Some 7, TargetPods = [''api-1'', ''worker-1'', ''cron-1'']\<rparr>"
  by (simp add: sample_defs pass_defs Sprintf_d_def decimal_3)

section \<open>The store after a pass without failures\<close>

lemma put_deployment_member:
  "x \<in> set (put_deployment d ds) \<Longrightarrow> x = d \<or> (x \<in> set ds \<and> d_key x \<noteq> d_key d)"
  by (auto simp: put_deployment_def split: if_splits)

lemma patch_deployment_key: "d_key (fst (patch_deployment n d)) = d_key d"
  by (simp add: patch_deployment_def d_key_def)

lemma patch_step_deployments:
  "flt (Call_Update_Deployment (d_name d)) = None \<Longrightarrow>
     deployments (patch_step flt n d w) =
       (if snd (patch_deployment n d)
        then put_deployment (fst (patch_deployment n d)) (deployments w) else deployments w)"
  by (simp add: patch_step_def split_beta Update_Deployment_fields patch_deployment_name)

lemma patch_loop_member:
  assumes ok: "\<forall>name. flt (Call_Update_Deployment name) = None"
  shows "x \<in> set (deployments (patch_loop flt n items w)) \<Longrightarrow>
     (x \<in> set (deployments w) \<and> (\<forall>d \<in> set items. snd (patch_deployment n d) \<longrightarrow> d_key d \<noteq> d_key x))
     \<or> (\<exists>d. x = fst (patch_deployment n d))"
proof (induction items arbitrary: w)
  case Nil
  then show ?case by simp
next
  case (Cons d items)
  from Cons.prems have "x \<in> set (deployments (patch_loop flt n items (patch_step flt n d w)))"
    by simp
  from Cons.IH [OF this] show ?case
  proof
    assume a: "x \<in> set (deployments (patch_step flt n d w)) \<and>
      (\<forall>d \<in> set items. snd (patch_deployment n d) \<longrightarrow> d_key d \<noteq> d_key x)"
    show ?thesis
    proof (cases "snd (patch_deployment n d)")
      case True
      with a ok have "x \<in> set (put_deployment (fst (patch_deployment n d)) (deployments w))"
        by (simp add: patch_step_deployments)
      from put_deployment_member [OF this] a show ?thesis
        by (auto simp: patch_deployment_key)
    next
      case False
      with a ok show ?thesis by (simp add: patch_step_deployments)
    qed
  next
    assume "\<exists>d. x = fst (patch_deployment n d)"
    then show ?thesis ..
  qed
qed

text \<open>After the loop, with every write a success, no listed deployment needs the patch.\<close>

lemma patch_loop_settles:
  assumes ok: "\<forall>name. flt (Call_Update_Deployment name) = None"
    and items: "items = filter (\<lambda>d. listed opts (d_namespace d) (d_labels d)) (deployments w)"
    and x: "x \<in> set (deployments (patch_loop flt n items w))"
    and l: "listed opts (d_namespace x) (d_labels x)"
  shows "\<not> snd (patch_deployment n x)"
proof -
  from patch_loop_member [OF ok x] show ?thesis
  proof
    assume a: "x \<in> set (deployments w) \<and>
      (\<forall>d \<in> set items. snd (patch_deployment n d) \<longrightarrow> d_key d \<noteq> d_key x)"
    with l items have "x \<in> set items" by simp
    with a show ?thesis by blast
  next
    assume "\<exists>d. x = fst (patch_deployment n d)"
    then show ?thesis by (auto simp: patch_deployment_settled)
  qed
qed

lemma patch_step_settled: "\<not> snd (patch_deployment n d) \<Longrightarrow> patch_step flt n d w = w"
  by (simp add: patch_step_def split_beta)

lemma patch_loop_settled:
  "\<forall>d \<in> set items. \<not> snd (patch_deployment n d) \<Longrightarrow> patch_loop flt n items w = w"
  by (induction items arbitrary: w) (simp_all add: patch_step_settled)

text \<open>The config maps after the stage has written one.\<close>

lemma find_None_key: "find (\<lambda>c. cm_key c = k) cs = None \<Longrightarrow> \<forall>c \<in> set cs. cm_key c \<noteq> k"
  by (simp add: find_None_iff)

lemma put_configmap_twice: "put_configmap cm (put_configmap cm cs) = put_configmap cm cs"
  by (simp add: put_configmap_def)

lemma find_put_configmap:
  "find (\<lambda>c. cm_key c = cm_key cm) cs = Some c0 \<Longrightarrow>
     find (\<lambda>c. cm_key c = cm_key cm) (put_configmap cm cs) = Some cm"
  by (induction cs) (auto simp: put_configmap_def)

lemma find_append_new:
  "find (\<lambda>c. cm_key c = cm_key cm) cs = None \<Longrightarrow>
     find (\<lambda>c. cm_key c = cm_key cm) (cs @ [cm]) = Some cm"
  by (induction cs) (auto split: if_splits)

lemma ensure_ConfigMap_stored:
  assumes "flt Call_Get_ConfigMap = None" "flt Call_Create_ConfigMap = None"
    "flt Call_Update_ConfigMap = None"
  shows "\<exists>w' c. ensure_ConfigMap flt tc cm w = Inr w' \<and>
     find (\<lambda>x. cm_key x = cm_key cm) (configmaps w') = Some c \<and>
     cm_key c = cm_key cm \<and> Data c = Data cm \<and>
     put_configmap c (configmaps w') = configmaps w'"
proof (cases "find (\<lambda>c. cm_key c = cm_key cm) (configmaps w)")
  case None
  from find_None_key [OF None] have "put_configmap cm (configmaps w @ [cm]) = configmaps w @ [cm]"
    by (simp add: put_configmap_def map_idI)
  with assms None find_append_new [OF None] show ?thesis
    by (simp add: ensure_ConfigMap_paths Let_def traced_def)
next
  case (Some existing)
  let ?c = "existing\<lparr>Data := Data cm\<rparr>"
  from Some have k: "cm_key ?c = cm_key cm" by (auto simp: find_Some_iff cm_key_def)
  from Some k have "find (\<lambda>c. cm_key c = cm_key cm) (put_configmap ?c (configmaps w)) = Some ?c"
    using find_put_configmap [of ?c "configmaps w" existing] by simp
  with assms Some k show ?thesis
    by (simp add: ensure_ConfigMap_paths Let_def traced_def put_configmap_twice)
qed

lemma patch_Deployments_settles:
  assumes ok: "\<forall>name. flt (Call_Update_Deployment name) = None"
    and x: "x \<in> set (deployments (patch_Deployments flt opts n w))"
    and l: "listed opts (d_namespace x) (d_labels x)"
    and listing: "flt Call_List_Deployments = None"
  shows "\<not> snd (patch_deployment n x)"
proof -
  let ?w = "traced (Ev_List_Deployments (fst opts)) w"
  let ?items = "filter (\<lambda>d. listed opts (d_namespace d) (d_labels d)) (deployments ?w)"
  have "patch_Deployments flt opts n w = patch_loop flt n ?items ?w"
    using listing by (simp add: patch_Deployments_def List_Deployments_def traced_fields)
  with x have "x \<in> set (deployments (patch_loop flt n ?items ?w))" by simp
  from patch_loop_settles [OF ok refl this l] show ?thesis .
qed

lemma patch_Deployments_settled:
  fixes w :: "('f, 'sel) world"
  assumes "\<forall>x \<in> set (deployments w). listed opts (d_namespace x) (d_labels x) \<longrightarrow>
      \<not> snd (patch_deployment n x)"
  shows "patch_Deployments flt opts n w = traced (Ev_List_Deployments (fst opts)) w"
proof -
  from assms have "\<forall>d \<in> set (filter (\<lambda>d. listed opts (d_namespace d) (d_labels d)) (deployments w)).
      \<not> snd (patch_deployment n d)" by simp
  from patch_loop_settled [OF this, of flt "traced (Ev_List_Deployments (fst opts)) w"]
  show ?thesis
    by (simp add: patch_Deployments_def List_Deployments_def traced_fields
        split: option.splits)
qed

text \<open>A pass in which no call fails: what it returns and what it leaves in the store.\<close>

lemma clean_pass:
  fixes tc :: "('f, 'sel) TracingConfig" and w :: "('f, 'sel) world"
    and lib :: "('f, 'sel) library" and now :: nat and req :: object_key
    and selector :: "(labels \<Rightarrow> bool) option"
  defines "ns \<equiv> (if Namespace (Spec tc) = [] then tc_namespace tc else Namespace (Spec tc))"
  defines "w' \<equiv> snd (Reconcile lib no_faults now req w)"
  defines "n \<equiv> tc_name tc @ ''-tracing-config''"
  defines "matching \<equiv>
     filter (\<lambda>p. listed (ns, selector) (pod_namespace p) (pod_labels p)) (pods w)"
  defines "applied \<equiv>
     \<lparr>Phase = ''Applied'',
      Message = ''Tracing configuration applied to '' @ Sprintf_d (int (length matching))
                  @ '' pods'',
      AppliedAt = Some now, TargetPods = map pod_name matching\<rparr>"
  assumes found: "find (\<lambda>t. tc_key t = req) (tracingconfigs w) = Some tc"
    and sel: "resolve_selector lib (Selector (Spec tc)) = Inr selector"
  shows "fst (Reconcile lib no_faults now req w) = (300, None)"
    and "find (\<lambda>t. tc_key t = req) (tracingconfigs w') = Some (tc\<lparr>Status := applied\<rparr>)"
    and "pods w' = pods w"
    and "\<exists>c. find (\<lambda>x. cm_key x = (ns, n)) (configmaps w') = Some c \<and>
           Data c = config_data (Sprintf_2f lib) (Spec tc) \<and>
           put_configmap c (configmaps w') = configmaps w'"
    and "\<forall>x \<in> set (deployments w'). listed (ns, selector) (d_namespace x) (d_labels x) \<longrightarrow>
           \<not> snd (patch_deployment n x)"
proof -
  let ?tc1 = "tc\<lparr>Status := (Status tc)
      \<lparr>Phase := ''Pending'', Message := ''Processing tracing configuration''\<rparr>\<rparr>"
  let ?w1 = "snd (Status_Update no_faults ?tc1 (traced (Ev_Get_TracingConfig req) w))"
  let ?w2 = "traced (Ev_List_Pods ns) ?w1"
  let ?cm = "\<lparr>cm_namespace = ns, cm_name = n, cm_labels = [],
              Data = config_data (Sprintf_2f lib) (Spec tc)\<rparr>"
  have nf: "no_faults c = None" for c by (simp add: no_faults_def)
  have key: "tc_key ?tc1 = req" using found [THEN found_key] by (simp add: tc_key_def)
  note R = Reconcile_found [where flt=no_faults and req=req and w=w and tc=tc, OF nf found,
      of lib now, folded ns_def n_def]
  from ensure_ConfigMap_stored [of no_faults ?tc1 ?cm ?w2, OF nf nf nf]
  obtain w3 c where w3: "ensure_ConfigMap no_faults ?tc1 ?cm ?w2 = Inr w3"
    and c: "find (\<lambda>x. cm_key x = cm_key ?cm) (configmaps w3) = Some c"
      "Data c = Data ?cm" "put_configmap c (configmaps w3) = configmaps w3"
    by blast
  from ensure_ConfigMap_frame [OF w3]
  have frame: "tracingconfigs w3 = put_status ?tc1 (tracingconfigs w)"
    "deployments w3 = deployments w" "pods w3 = pods w"
    by (simp_all add: traced_fields Status_Update_fields nf)
  have Rw: "Reconcile lib no_faults now req w =
      report_Applied no_faults now ?tc1 matching
        (patch_Deployments no_faults (ns, selector) n w3)"
    using sel w3 by (simp add: R matching_def nf)
  show "fst (Reconcile lib no_faults now req w) = (300, None)"
    by (simp add: Rw report_Applied_fields nf)
  have kA: "tc_key (?tc1\<lparr>Status := applied\<rparr>) = req" using key by (simp add: tc_key_def)
  have "tracingconfigs w' =
      put_status (?tc1\<lparr>Status := applied\<rparr>) (put_status ?tc1 (tracingconfigs w))"
    unfolding w'_def Rw
    by (simp add: report_Applied_fields patch_Deployments_fields frame nf applied_def)
  with found_after_put [OF found_after_put [OF found key] kA]
  show "find (\<lambda>t. tc_key t = req) (tracingconfigs w') = Some (tc\<lparr>Status := applied\<rparr>)"
    by simp
  show "pods w' = pods w"
    unfolding w'_def Rw by (simp add: report_Applied_fields patch_Deployments_fields frame)
  have "configmaps w' = configmaps w3"
    unfolding w'_def Rw by (simp add: report_Applied_fields patch_Deployments_fields)
  with c show "\<exists>c. find (\<lambda>x. cm_key x = (ns, n)) (configmaps w') = Some c \<and>
      Data c = config_data (Sprintf_2f lib) (Spec tc) \<and>
      put_configmap c (configmaps w') = configmaps w'"
    by (simp add: cm_key_def)
  have "deployments w' = deployments (patch_Deployments no_faults (ns, selector) n w3)"
    unfolding w'_def Rw by (simp add: report_Applied_fields)
  with patch_Deployments_settles [of no_faults _ "(ns, selector)" n w3]
  show "\<forall>x \<in> set (deployments w'). listed (ns, selector) (d_namespace x) (d_labels x) \<longrightarrow>
      \<not> snd (patch_deployment n x)"
    by (simp add: nf)
qed

text \<open>
  A pass in which no call fails, on a store that holds the config map with the compiled
  payload and in which every listed deployment carries the reference.
\<close>

lemma settled_pass:
  fixes tc :: "('f, 'sel) TracingConfig" and w :: "('f, 'sel) world"
    and lib :: "('f, 'sel) library" and now :: nat and req :: object_key
    and selector :: "(labels \<Rightarrow> bool) option"
  defines "ns \<equiv> (if Namespace (Spec tc) = [] then tc_namespace tc else Namespace (Spec tc))"
  defines "w' \<equiv> snd (Reconcile lib no_faults now req w)"
  defines "n \<equiv> tc_name tc @ ''-tracing-config''"
  defines "matching \<equiv>
     filter (\<lambda>p. listed (ns, selector) (pod_namespace p) (pod_labels p)) (pods w)"
  defines "applied \<equiv>
     \<lparr>Phase = ''Applied'',
      Message = ''Tracing configuration applied to '' @ Sprintf_d (int (length matching))
                  @ '' pods'',
      AppliedAt = Some now, TargetPods = map pod_name matching\<rparr>"
  assumes found: "find (\<lambda>t. tc_key t = req) (tracingconfigs w) = Some tc"
    and sel: "resolve_selector lib (Selector (Spec tc)) = Inr selector"
    and c: "find (\<lambda>x. cm_key x = (ns, n)) (configmaps w) = Some c"
      "Data c = config_data (Sprintf_2f lib) (Spec tc)"
      "put_configmap c (configmaps w) = configmaps w"
    and settled: "\<forall>x \<in> set (deployments w).
      listed (ns, selector) (d_namespace x) (d_labels x) \<longrightarrow> \<not> snd (patch_deployment n x)"
  shows "new_events w w' =
           [Ev_Get_TracingConfig req,
            Ev_Status_Update req
              ((Status tc)\<lparr>Phase := ''Pending'',
                            Message := ''Processing tracing configuration''\<rparr>) True,
            Ev_List_Pods ns, Ev_Get_ConfigMap (ns, n), Ev_Update_ConfigMap c True,
            Ev_List_Deployments ns, Ev_Status_Update req applied True] \<and>
         configmaps w' = configmaps w \<and> deployments w' = deployments w \<and>
         stored_status req w' = Some applied \<and>
         fst (Reconcile lib no_faults now req w) = (300, None)"
proof -
  let ?tc1 = "tc\<lparr>Status := (Status tc)
      \<lparr>Phase := ''Pending'', Message := ''Processing tracing configuration''\<rparr>\<rparr>"
  let ?w1 = "snd (Status_Update no_faults ?tc1 (traced (Ev_Get_TracingConfig req) w))"
  let ?w2 = "traced (Ev_List_Pods ns) ?w1"
  let ?cm = "\<lparr>cm_namespace = ns, cm_name = n, cm_labels = [],
              Data = config_data (Sprintf_2f lib) (Spec tc)\<rparr>"
  let ?w3 = "traced (Ev_Update_ConfigMap c True) (traced (Ev_Get_ConfigMap (ns, n)) ?w2)"
  have nf: "no_faults x = None" for x by (simp add: no_faults_def)
  have key: "tc_key ?tc1 = req" using found [THEN found_key] by (simp add: tc_key_def)
  have kA: "tc_key (?tc1\<lparr>Status := applied\<rparr>) = req" using key by (simp add: tc_key_def)
  note R = Reconcile_found [where flt=no_faults and req=req and w=w and tc=tc, OF nf found,
      of lib now, folded ns_def n_def]
  have same: "c\<lparr>Data := config_data (Sprintf_2f lib) (Spec tc)\<rparr> = c"
    using c(2) by simp
  have cms: "configmaps ?w2 = configmaps w"
    by (simp add: traced_fields Status_Update_fields)
  have keep: "x\<lparr>configmaps := v\<rparr> = x" if "configmaps x = v" for x :: "('f, 'sel) world" and v
    using that by simp
  have w3: "ensure_ConfigMap no_faults ?tc1 ?cm ?w2 = Inr ?w3"
    using c(1,3)
    by (simp add: ensure_ConfigMap_paths Let_def nf cm_key_def traced_fields
        Status_Update_fields same keep)
  have deps: "\<forall>x \<in> set (deployments ?w3).
      listed (ns, selector) (d_namespace x) (d_labels x) \<longrightarrow> \<not> snd (patch_deployment n x)"
    using settled by (simp add: traced_fields Status_Update_fields)
  have Rw: "Reconcile lib no_faults now req w =
      report_Applied no_faults now ?tc1 matching (traced (Ev_List_Deployments ns) ?w3)"
    using sel w3 patch_Deployments_settled [OF deps, of no_faults]
    by (simp add: R matching_def nf)
  have tcs: "tracingconfigs w' =
      put_status (?tc1\<lparr>Status := applied\<rparr>) (put_status ?tc1 (tracingconfigs w))"
    unfolding w'_def Rw
    by (simp add: report_Applied_fields traced_fields Status_Update_fields nf applied_def)
  have stored: "stored_status req w' = Some applied"
    using found_after_put [OF found_after_put [OF found key] kA]
    by (simp add: stored_status_def tcs)
  have events: "new_events w w' =
      [Ev_Get_TracingConfig req,
       Ev_Status_Update req
         ((Status tc)\<lparr>Phase := ''Pending'',
                       Message := ''Processing tracing configuration''\<rparr>) True,
       Ev_List_Pods ns, Ev_Get_ConfigMap (ns, n), Ev_Update_ConfigMap c True,
       Ev_List_Deployments ns, Ev_Status_Update req applied True]"
    unfolding w'_def Rw using key
    by (simp add: new_events_def report_Applied_fields traced_fields Status_Update_fields nf
        applied_def)
  have frame: "configmaps w' = configmaps w" "deployments w' = deployments w"
    unfolding w'_def Rw
    by (simp_all add: report_Applied_fields traced_fields Status_Update_fields)
  have res: "fst (Reconcile lib no_faults now req w) = (300, None)"
    by (simp add: Rw report_Applied_fields nf)
  from events frame stored res show ?thesis by blast
qed

section \<open>Two passes in a row\<close>

text \<open>
  C1, as the code has it. After a pass in which no call failed, a second pass on the same
  policy, again with no call failing, makes seven calls. One of them is a write of the
  config map: line 254 updates the config map whenever it exists, here with the very
  object that is stored, so the config maps in the store do not change. None is a write
  of a deployment, and the deployments do not change. The status is written twice, first
  with phase \<^verbatim>\<open>Pending\<close> and last with phase \<^verbatim>\<open>Applied\<close>, which is what the store holds after
  either pass.
\<close>

theorem second_pass_rewrites_config_only:
  fixes tc :: "('f, 'sel) TracingConfig" and w :: "('f, 'sel) world"
    and lib :: "('f, 'sel) library" and now later :: nat and req :: object_key
    and selector :: "(labels \<Rightarrow> bool) option"
  defines "ns \<equiv> (if Namespace (Spec tc) = [] then tc_namespace tc else Namespace (Spec tc))"
  defines "n \<equiv> tc_name tc @ ''-tracing-config''"
  defines "w1 \<equiv> snd (Reconcile lib no_faults now req w)"
  defines "w2 \<equiv> snd (Reconcile lib no_faults later req w1)"
  defines "matching \<equiv>
     filter (\<lambda>p. listed (ns, selector) (pod_namespace p) (pod_labels p)) (pods w)"
  defines "applied t \<equiv>
     \<lparr>Phase = ''Applied'',
      Message = ''Tracing configuration applied to '' @ Sprintf_d (int (length matching))
                  @ '' pods'',
      AppliedAt = Some t, TargetPods = map pod_name matching\<rparr>"
  assumes found: "find (\<lambda>t. tc_key t = req) (tracingconfigs w) = Some tc"
    and sel: "resolve_selector lib (Selector (Spec tc)) = Inr selector"
  shows "\<exists>c. find (\<lambda>x. cm_key x = (ns, n)) (configmaps w1) = Some c \<and>
           Data c = config_data (Sprintf_2f lib) (Spec tc) \<and>
           new_events w1 w2 =
             [Ev_Get_TracingConfig req,
              Ev_Status_Update req
                ((applied now)\<lparr>Phase := ''Pending'',
                               Message := ''Processing tracing configuration''\<rparr>) True,
              Ev_List_Pods ns, Ev_Get_ConfigMap (ns, n), Ev_Update_ConfigMap c True,
              Ev_List_Deployments ns, Ev_Status_Update req (applied later) True] \<and>
           configmaps w2 = configmaps w1 \<and> deployments w2 = deployments w1 \<and>
           stored_status req w1 = Some (applied now) \<and>
           stored_status req w2 = Some (applied later) \<and>
           fst (Reconcile lib no_faults later req w1) = (300, None)"
proof -
  let ?tc' = "tc\<lparr>Status := applied now\<rparr>"
  note first = clean_pass [where w=w and tc=tc and req=req, OF found sel, of now,
      folded ns_def n_def w1_def, folded matching_def, folded applied_def]
  from first(4) obtain c where c: "find (\<lambda>x. cm_key x = (ns, n)) (configmaps w1) = Some c"
    "Data c = config_data (Sprintf_2f lib) (Spec tc)"
    "put_configmap c (configmaps w1) = configmaps w1" by blast
  have found': "find (\<lambda>t. tc_key t = req) (tracingconfigs w1) = Some ?tc'"
    by (rule first(2))
  have sel': "resolve_selector lib (Selector (Spec ?tc')) = Inr selector"
    using sel by simp
  have second: "new_events w1 w2 =
      [Ev_Get_TracingConfig req,
       Ev_Status_Update req
         ((applied now)\<lparr>Phase := ''Pending'',
                        Message := ''Processing tracing configuration''\<rparr>) True,
       Ev_List_Pods ns, Ev_Get_ConfigMap (ns, n), Ev_Update_ConfigMap c True,
       Ev_List_Deployments ns, Ev_Status_Update req (applied later) True] \<and>
      configmaps w2 = configmaps w1 \<and> deployments w2 = deployments w1 \<and>
      stored_status req w2 = Some (applied later) \<and>
      fst (Reconcile lib no_faults later req w1) = (300, None)"
    using settled_pass [where w=w1 and tc="?tc'" and req=req and c=c and selector=selector
        and lib=lib and now=later, OF found' sel'] c first(3,5)
    by (simp add: ns_def n_def w2_def matching_def applied_def cong: if_cong)
  have "stored_status req w1 = Some (applied now)"
    using found' by (simp add: stored_status_def)
  with c second show ?thesis by blast
qed

theorem second_pass_rewrites_config_only_witness:
  "find (\<lambda>t. tc_key t = sample_req) (tracingconfigs sample_world) = Some sample_policy \<and>
   resolve_selector sample_library (Selector (Spec sample_policy)) =
     Inr (Some (\<lambda>ls. list_all (\<lambda>(k, v). map_of ls k = Some v) [(''app'', ''svc-a'')])) \<and>
   length (filter is_config_write (new_events after_first_pass after_second_pass)) = 1 \<and>
   filter is_workload_write (new_events after_first_pass after_second_pass) = [] \<and>
   configmaps after_second_pass = configmaps after_first_pass \<and>
   deployments after_second_pass = deployments after_first_pass \<and>
   map_option Phase (stored_status sample_req after_first_pass) = Some ''Applied'' \<and>
   map_option Phase (stored_status sample_req after_second_pass) = Some ''Applied''"
proof -
  have h1: "find (\<lambda>t. tc_key t = sample_req) (tracingconfigs sample_world) = Some sample_policy"
    by (simp add: sample_defs tc_key_def)
  have h2: "resolve_selector sample_library (Selector (Spec sample_policy)) =
      Inr (Some (\<lambda>ls. list_all (\<lambda>(k, v). map_of ls k = Some v) [(''app'', ''svc-a'')]))"
    by (simp add: sample_defs resolve_selector_def)
  from second_pass_rewrites_config_only [where w=sample_world and tc=sample_policy
      and req=sample_req and lib=sample_library and now=7 and later=8, OF h1 h2,
      folded after_first_pass_def, folded after_second_pass_def]
  have "length (filter is_config_write (new_events after_first_pass after_second_pass)) = 1 \<and>
      filter is_workload_write (new_events after_first_pass after_second_pass) = [] \<and>
      configmaps after_second_pass = configmaps after_first_pass \<and>
      deployments after_second_pass = deployments after_first_pass \<and>
      map_option Phase (stored_status sample_req after_first_pass) = Some ''Applied'' \<and>
      map_option Phase (stored_status sample_req after_second_pass) = Some ''Applied''"
    by (elim exE conjE) simp
  with h1 h2 show ?thesis by blast
qed

text \<open>
  The claim C1 as it stands fails on the sample cluster: the second of two passes in a
  row makes a write of the config map.
\<close>

theorem second_pass_writes_config_map:
  "list_ex is_config_write (new_events after_first_pass after_second_pass)"
  by (simp add: after_first_pass_def after_second_pass_def sample_defs pass_defs)

section \<open>The fields a pass does not read\<close>

lemma set_unread_fields:
  "tc_key (set_unread e h t) = tc_key t"
  "tc_name (set_unread e h t) = tc_name t"
  "tc_namespace (set_unread e h t) = tc_namespace t"
  "Status (set_unread e h t) = Status t"
  "Namespace (Spec (set_unread e h t)) = Namespace (Spec t)"
  "Selector (Spec (set_unread e h t)) = Selector (Spec t)"
  "config_data f (Spec (set_unread e h t)) = config_data f (Spec t)"
  by (simp_all add: set_unread_def tc_key_def config_data_def Let_def cong: if_cong)

lemma edit_policy_fields:
  "trace (edit_policy key e h w) = trace w"
  "configmaps (edit_policy key e h w) = configmaps w"
  "deployments (edit_policy key e h w) = deployments w"
  "pods (edit_policy key e h w) = pods w"
  "map Status (tracingconfigs (edit_policy key e h w)) = map Status (tracingconfigs w)"
  by (simp_all add: edit_policy_def set_unread_fields o_def)

lemma edit_policy_traced:
  "traced ev (edit_policy key e h w) = edit_policy key e h (traced ev w)"
  by (simp add: traced_def edit_policy_def)

lemma edit_policy_find:
  "find (\<lambda>t. tc_key t = req) (tracingconfigs (edit_policy key e h w)) =
     map_option (\<lambda>t. if tc_key t = key then set_unread e h t else t)
       (find (\<lambda>t. tc_key t = req) (tracingconfigs w))"
proof -
  have "find (\<lambda>t. tc_key t = req) (map (\<lambda>t. if tc_key t = key then set_unread e h t else t) ts) =
      map_option (\<lambda>t. if tc_key t = key then set_unread e h t else t)
        (find (\<lambda>t. tc_key t = req) ts)" for ts :: "('a, 'b) TracingConfig list"
    by (induction ts) (simp_all add: set_unread_fields)
  then show ?thesis by (simp add: edit_policy_def)
qed

lemma edit_policy_put_status:
  assumes "tc_key t' = tc_key t" and "Status t' = Status t"
  shows "(edit_policy key e h w)\<lparr>tracingconfigs :=
            put_status t' (tracingconfigs (edit_policy key e h w))\<rparr> =
         edit_policy key e h (w\<lparr>tracingconfigs := put_status t (tracingconfigs w)\<rparr>)"
proof -
  have "put_status t' (map (\<lambda>t. if tc_key t = key then set_unread e h t else t) ts) =
      map (\<lambda>t. if tc_key t = key then set_unread e h t else t) (put_status t ts)"
    for ts :: "('a, 'b) TracingConfig list"
    using assms
    by (induction ts) (auto simp: put_status_def set_unread_def tc_key_def)
  then show ?thesis by (simp add: edit_policy_def)
qed

lemma edit_policy_Status_Update:
  assumes "tc_key t' = tc_key t" and "Status t' = Status t"
  shows "Status_Update flt t' (edit_policy key e h w) =
     (fst (Status_Update flt t w), edit_policy key e h (snd (Status_Update flt t w)))"
  using assms edit_policy_put_status [OF assms, of key e h w]
  by (simp add: Status_Update_def edit_policy_traced split: option.splits)

lemma edit_policy_fail_pass:
  assumes "tc_key t' = tc_key t" and "Status t' = Status t"
  shows "fail_pass flt t' what err (edit_policy key e h w) =
     (fst (fail_pass flt t what err w), edit_policy key e h (snd (fail_pass flt t what err w)))"
proof -
  let ?s = "(Status t)\<lparr>Phase := ''Failed'', Message := what @ error_string err\<rparr>"
  have "Status_Update flt (t'\<lparr>Status := ?s\<rparr>) (edit_policy key e h w) =
      (fst (Status_Update flt (t\<lparr>Status := ?s\<rparr>) w),
       edit_policy key e h (snd (Status_Update flt (t\<lparr>Status := ?s\<rparr>) w)))"
    using assms by (intro edit_policy_Status_Update) (simp_all add: tc_key_def)
  with assms(2) show ?thesis by (simp add: fail_pass_def Let_def split_beta)
qed

lemma edit_policy_report_Applied:
  assumes "tc_key t' = tc_key t"
  shows "report_Applied flt now t' items (edit_policy key e h w) =
     (fst (report_Applied flt now t items w),
      edit_policy key e h (snd (report_Applied flt now t items w)))"
proof -
  let ?s = "\<lparr>Phase = ''Applied'',
      Message = ''Tracing configuration applied to '' @ Sprintf_d (int (length (map pod_name items)))
                  @ '' pods'',
      AppliedAt = Some now, TargetPods = map pod_name items\<rparr>"
  have "Status_Update flt (t'\<lparr>Status := ?s\<rparr>) (edit_policy key e h w) =
      (fst (Status_Update flt (t\<lparr>Status := ?s\<rparr>) w),
       edit_policy key e h (snd (Status_Update flt (t\<lparr>Status := ?s\<rparr>) w)))"
    using assms by (intro edit_policy_Status_Update) (simp_all add: tc_key_def)
  then show ?thesis
    by (simp add: report_Applied_def Let_def split_beta split: option.splits)
qed

lemma edit_policy_patch_loop:
  "patch_loop flt n items (edit_policy key e h w) = edit_policy key e h (patch_loop flt n items w)"
proof (induction items arbitrary: w)
  case Nil
  show ?case by simp
next
  case (Cons d items)
  have "patch_step flt n d (edit_policy key e h w) = edit_policy key e h (patch_step flt n d w)"
    by (simp add: patch_step_def split_beta Update_Deployment_def traced_def edit_policy_def
        split: option.splits)
  with Cons.IH show ?case by simp
qed

lemma edit_policy_patch_Deployments:
  "patch_Deployments flt opts n (edit_policy key e h w) =
     edit_policy key e h (patch_Deployments flt opts n w)"
  by (simp add: patch_Deployments_def List_Deployments_def edit_policy_traced
      edit_policy_fields edit_policy_patch_loop split: option.splits)

lemma edit_policy_ensure_ConfigMap:
  assumes "tc_key t' = tc_key t" and "Status t' = Status t"
  shows "ensure_ConfigMap flt t' cm (edit_policy key e h w) =
     (case ensure_ConfigMap flt t cm w of
        Inl returned \<Rightarrow> Inl (fst returned, edit_policy key e h (snd returned))
      | Inr w' \<Rightarrow> Inr (edit_policy key e h w'))"
  by (simp add: ensure_ConfigMap_paths Let_def edit_policy_fields edit_policy_traced
      edit_policy_fail_pass [OF assms] split: option.splits)
     (simp add: edit_policy_def traced_def)

lemma Reconcile_not_found:
  "flt Call_Get_TracingConfig = None \<Longrightarrow>
   find (\<lambda>t. tc_key t = req) (tracingconfigs w) = None \<Longrightarrow>
     Reconcile lib flt now req w = ((0, None), traced (Ev_Get_TracingConfig req) w)"
  by (simp add: Reconcile_def Get_TracingConfig_def IgnoreNotFound_def)

text \<open>A pass commutes with an edit of the two fields: the edit can as well be made afterwards.\<close>

lemma Reconcile_edit_policy:
  fixes w :: "('f, 'sel) world"
  shows "Reconcile lib flt now req (edit_policy key e h w) =
     (fst (Reconcile lib flt now req w), edit_policy key e h (snd (Reconcile lib flt now req w)))"
proof (cases "flt Call_Get_TracingConfig")
  case (Some m)
  then show ?thesis by (simp add: Reconcile_not_fetched edit_policy_traced)
next
  case None
  show ?thesis
  proof (cases "find (\<lambda>t. tc_key t = req) (tracingconfigs w)")
    case absent: None
    then have "find (\<lambda>t. tc_key t = req) (tracingconfigs (edit_policy key e h w)) = None"
      by (simp add: edit_policy_find)
    with None absent show ?thesis
      by (simp add: Reconcile_not_found edit_policy_traced)
  next
    case (Some tc)
    let ?g = "\<lambda>t. if tc_key t = key then set_unread e h t else t"
    let ?E = "edit_policy key e h :: ('f, 'sel) world \<Rightarrow> ('f, 'sel) world"
    let ?pending = "(Status tc)
        \<lparr>Phase := ''Pending'', Message := ''Processing tracing configuration''\<rparr>"
    let ?tc1 = "tc\<lparr>Status := ?pending\<rparr>"
    let ?tc1' = "(?g tc)\<lparr>Status := ?pending\<rparr>"
    let ?ns = "if Namespace (Spec tc) = [] then tc_namespace tc else Namespace (Spec tc)"
    let ?n = "tc_name tc @ ''-tracing-config''"
    let ?cm = "\<lparr>cm_namespace = ?ns, cm_name = ?n, cm_labels = [],
                Data = config_data (Sprintf_2f lib) (Spec tc)\<rparr>"
    let ?w1 = "snd (Status_Update flt ?tc1 (traced (Ev_Get_TracingConfig req) w))"
    let ?w2 = "traced (Ev_List_Pods ?ns) ?w1"
    have found': "find (\<lambda>t. tc_key t = req) (tracingconfigs (?E w)) = Some (?g tc)"
      using Some by (simp add: edit_policy_find)
    have same: "tc_key ?tc1' = tc_key ?tc1" "Status ?tc1' = Status ?tc1"
      by (simp_all add: set_unread_fields tc_key_def)
    have g: "Status (?g tc) = Status tc" "Namespace (Spec (?g tc)) = Namespace (Spec tc)"
      "tc_namespace (?g tc) = tc_namespace tc" "tc_name (?g tc) = tc_name tc"
      "Selector (Spec (?g tc)) = Selector (Spec tc)"
      "config_data (Sprintf_2f lib) (Spec (?g tc)) = config_data (Sprintf_2f lib) (Spec tc)"
      by (simp_all add: set_unread_fields)
    have w1: "snd (Status_Update flt ?tc1' (traced (Ev_Get_TracingConfig req) (?E w))) = ?E ?w1"
      by (simp add: edit_policy_traced edit_policy_Status_Update [OF same])
    note L = Reconcile_found [where flt=flt and req=req and w="?E w" and tc="?g tc",
        OF None found', of lib now, unfolded g w1]
    note R = Reconcile_found [where flt=flt and req=req and w=w and tc=tc,
        OF None Some, of lib now]
    show ?thesis
    proof (cases "resolve_selector lib (Selector (Spec tc))")
      case (Inl m)
      then show ?thesis
        unfolding L R by (simp add: edit_policy_fail_pass [OF same])
    next
      case (Inr selector)
      show ?thesis
      proof (cases "flt Call_List_Pods")
        case failed: (Some m)
        with Inr show ?thesis
          unfolding L R
          by (simp add: edit_policy_fail_pass [OF same] edit_policy_traced)
      next
        case listed: None
        have stage: "ensure_ConfigMap flt ?tc1' ?cm (?E ?w2) =
            (case ensure_ConfigMap flt ?tc1 ?cm ?w2 of
               Inl returned \<Rightarrow> Inl (fst returned, ?E (snd returned))
             | Inr w' \<Rightarrow> Inr (?E w'))"
          by (rule edit_policy_ensure_ConfigMap [OF same])
        show ?thesis
        proof (cases "ensure_ConfigMap flt ?tc1 ?cm ?w2")
          case returned: (Inl returned)
          with Inr listed stage show ?thesis
            unfolding L R by (simp add: edit_policy_traced)
        next
          case continued: (Inr w3)
          with Inr listed stage show ?thesis
            unfolding L R
            by (simp add: edit_policy_traced edit_policy_fields edit_policy_patch_Deployments
                edit_policy_report_Applied [OF same(1)])
        qed
      qed
    qed
  qed
qed

text \<open>
  C10. Two stores that differ only in the fields \<^verbatim>\<open>Enabled\<close> and \<^verbatim>\<open>Headers\<close> of a policy's
  spec lead a pass to the same result, the same calls with the same payloads, deployments
  and statuses, the same config maps and deployments in the store and the same status of
  every policy: the store after the pass on the edited store is the edited store after
  the pass. In particular a policy with \<^verbatim>\<open>Enabled\<close> false is reconciled like any other.
\<close>

theorem unread_fields_do_not_matter:
  fixes w :: "('f, 'sel) world" and lib :: "('f, 'sel) library" and flt :: faults
    and now :: nat and req key :: object_key and e :: bool and h :: "(string \<times> string) list"
  defines "edited \<equiv> Reconcile lib flt now req (edit_policy key e h w)"
  defines "original \<equiv> Reconcile lib flt now req w"
  shows "fst edited = fst original \<and>
         trace (snd edited) = trace (snd original) \<and>
         configmaps (snd edited) = configmaps (snd original) \<and>
         deployments (snd edited) = deployments (snd original) \<and>
         map Status (tracingconfigs (snd edited)) = map Status (tracingconfigs (snd original)) \<and>
         snd edited = edit_policy key e h (snd original)"
  unfolding edited_def original_def
  by (simp add: Reconcile_edit_policy edit_policy_fields)

theorem unread_fields_do_not_matter_witness:
  "new_events (edit_policy sample_req False [(''authorization'', ''secret'')] sample_world)
     (snd (Reconcile sample_library no_faults 7 sample_req
             (edit_policy sample_req False [(''authorization'', ''secret'')] sample_world))) =
   new_events sample_world (snd (Reconcile sample_library no_faults 7 sample_req sample_world)) \<and>
   Enabled (Spec (hd (tracingconfigs
     (edit_policy sample_req False [(''authorization'', ''secret'')] sample_world)))) = False \<and>
   stored_status sample_req
     (snd (Reconcile sample_library no_faults 7 sample_req
             (edit_policy sample_req False [(''authorization'', ''secret'')] sample_world))) =
     Some \<lparr>Phase = ''Applied'', Message = ''Tracing configuration applied to 3 pods'',
           AppliedAt = Some 7, TargetPods = [''api-1'', ''worker-1'', ''cron-1'']\<rparr>"
proof -
  have a: "stored_status sample_req (snd (Reconcile sample_library no_faults 7 sample_req sample_world)) =
      Some \<lparr>Phase = ''Applied'', Message = ''Tracing configuration applied to 3 pods'',
            AppliedAt = Some 7, TargetPods = [''api-1'', ''worker-1'', ''cron-1'']\<rparr>"
    by (simp add: sample_defs pass_defs Sprintf_d_def decimal_3 decimal_three)
  have b: "stored_status req (edit_policy key e h w) = stored_status req w"
    for req key e h and w :: "(sample_rate, sample_selector) world"
    by (cases "find (\<lambda>t. tc_key t = req) (tracingconfigs w)")
       (simp_all add: stored_status_def edit_policy_find set_unread_fields)
  have c: "Enabled (Spec (hd (tracingconfigs
      (edit_policy sample_req False [(''authorization'', ''secret'')] sample_world)))) = False"
    by (simp add: sample_defs edit_policy_def set_unread_def tc_key_def)
  from unread_fields_do_not_matter [where w=sample_world and lib=sample_library
      and flt=no_faults and now=7 and req=sample_req and key=sample_req and e=False
      and h="[(''authorization'', ''secret'')]"] a b c
  show ?thesis by (simp add: new_events_def edit_policy_fields)
qed

section \<open>The Pending status\<close>

lemma patch_loop_deployments:
  "deployments (patch_loop flt n items w) =
     fold (\<lambda>d ds. if snd (patch_deployment n d) \<and> flt (Call_Update_Deployment (d_name d)) = None
                    then put_deployment (fst (patch_deployment n d)) ds else ds)
       items (deployments w)"
  by (induction items arbitrary: w)
     (simp_all add: patch_step_def split_beta Update_Deployment_fields patch_deployment_name)

lemma patch_Deployments_deployments:
  "deployments (patch_Deployments flt opts n w) =
     (case flt Call_List_Deployments of
        None \<Rightarrow>
          fold (\<lambda>d ds. if snd (patch_deployment n d) \<and>
                           flt (Call_Update_Deployment (d_name d)) = None
                         then put_deployment (fst (patch_deployment n d)) ds else ds)
            (filter (\<lambda>d. listed opts (d_namespace d) (d_labels d)) (deployments w))
            (deployments w)
      | Some m \<Rightarrow> deployments w)"
  by (simp add: patch_Deployments_def List_Deployments_def patch_loop_deployments traced_fields
      split: option.splits)

lemma workload_writes_no_status: "\<not> list_ex is_status_update (workload_writes flt n items)"
  by (simp add: workload_writes_def list_ex_iff)

lemma ensure_ConfigMap_written_kind:
  "ensure_ConfigMap flt tc cm w = Inr w' \<Longrightarrow>
     \<exists>e. trace w' = trace w @ [Ev_Get_ConfigMap (cm_key cm), e] \<and> \<not> is_status_update e"
  by (auto simp: ensure_ConfigMap_paths Let_def traced_def split: option.splits)

text \<open>
  The calls of the config map stage when it returns: reads and the failed write, then at
  most one status update, the last call.
\<close>

lemma ensure_ConfigMap_returned_shape:
  assumes "ensure_ConfigMap flt tc cm w = Inl returned"
  shows "\<exists>body tail. trace (snd returned) = trace w @ body @ tail \<and>
           \<not> list_ex is_status_update body \<and>
           (tail = [] \<or> (\<exists>st written. tail = [Ev_Status_Update (tc_key tc) st written]))"
proof (cases "flt Call_Get_ConfigMap")
  case (Some m)
  with assms have "trace (snd returned) = trace w @ [Ev_Get_ConfigMap (cm_key cm)] @ []"
    by (auto simp: ensure_ConfigMap_paths Let_def traced_fields)
  then show ?thesis by (intro exI [of _ "[Ev_Get_ConfigMap (cm_key cm)]"] exI [of _ "[]"]) simp
next
  case None
  show ?thesis
  proof (cases "find (\<lambda>c. cm_key c = cm_key cm) (configmaps w)")
    case absent: None
    with None assms obtain st written where
      "trace (snd returned) = trace w @
         [Ev_Get_ConfigMap (cm_key cm), Ev_Create_ConfigMap cm False]
         @ [Ev_Status_Update (tc_key tc) st written]"
      by (auto simp: ensure_ConfigMap_paths Let_def traced_fields fail_pass_fields
          split: option.splits)
    then show ?thesis
      by (intro exI [of _ "[Ev_Get_ConfigMap (cm_key cm), Ev_Create_ConfigMap cm False]"]
          exI [of _ "[Ev_Status_Update (tc_key tc) st written]"]) simp
  next
    case (Some existing)
    with None assms obtain st written where
      "trace (snd returned) = trace w @
         [Ev_Get_ConfigMap (cm_key cm),
          Ev_Update_ConfigMap (existing\<lparr>Data := Data cm\<rparr>) False]
         @ [Ev_Status_Update (tc_key tc) st written]"
      by (auto simp: ensure_ConfigMap_paths Let_def traced_fields fail_pass_fields
          split: option.splits)
    then show ?thesis
      by (intro exI [of _ "[Ev_Get_ConfigMap (cm_key cm),
            Ev_Update_ConfigMap (existing\<lparr>Data := Data cm\<rparr>) False]"]
          exI [of _ "[Ev_Status_Update (tc_key tc) st written]"]) simp
  qed
qed

text \<open>
  Whether the status update with phase \<^verbatim>\<open>Pending\<close> succeeds has no effect on the rest of
  the pass.
\<close>

lemma pending_outcome_irrelevant:
  fixes w :: "('f, 'sel) world" and flt :: faults and x :: "string option"
  defines "flt' \<equiv> flt(Call_Status_Update ''Pending'' := x)"
  assumes fetched: "flt Call_Get_TracingConfig = None"
    and found: "find (\<lambda>t. tc_key t = req) (tracingconfigs w) = Some tc"
  shows "fst (Reconcile lib flt' now req w) = fst (Reconcile lib flt now req w) \<and>
         drop 2 (new_events w (snd (Reconcile lib flt' now req w))) =
           drop 2 (new_events w (snd (Reconcile lib flt now req w))) \<and>
         configmaps (snd (Reconcile lib flt' now req w)) =
           configmaps (snd (Reconcile lib flt now req w)) \<and>
         deployments (snd (Reconcile lib flt' now req w)) =
           deployments (snd (Reconcile lib flt now req w))"
proof -
  have fetched': "flt' Call_Get_TracingConfig = None"
    using fetched by (simp add: flt'_def)
  have key: "tc_key tc = req" using found by (rule found_key)
  have other: "flt' c = flt c" if "c \<noteq> Call_Status_Update ''Pending''" for c
    using that by (simp add: flt'_def)
  have calls: "flt' (Call_Status_Update ''Failed'') = flt (Call_Status_Update ''Failed'')"
    "flt' (Call_Status_Update ''Applied'') = flt (Call_Status_Update ''Applied'')"
    "flt' Call_List_Pods = flt Call_List_Pods"
    "flt' Call_Get_ConfigMap = flt Call_Get_ConfigMap"
    "flt' Call_Create_ConfigMap = flt Call_Create_ConfigMap"
    "flt' Call_Update_ConfigMap = flt Call_Update_ConfigMap"
    "flt' Call_List_Deployments = flt Call_List_Deployments"
    "\<And>name. flt' (Call_Update_Deployment name) = flt (Call_Update_Deployment name)"
    by (simp_all add: other)
  let ?tc1 = "tc\<lparr>Status := (Status tc)
      \<lparr>Phase := ''Pending'', Message := ''Processing tracing configuration''\<rparr>\<rparr>"
  let ?ns = "if Namespace (Spec tc) = [] then tc_namespace tc else Namespace (Spec tc)"
  let ?n = "tc_name tc @ ''-tracing-config''"
  let ?cm = "\<lparr>cm_namespace = ?ns, cm_name = ?n, cm_labels = [],
              Data = config_data (Sprintf_2f lib) (Spec tc)\<rparr>"
  let ?w1 = "\<lambda>f. snd (Status_Update f ?tc1 (traced (Ev_Get_TracingConfig req) w))"
  let ?w2 = "\<lambda>f. traced (Ev_List_Pods ?ns) (?w1 f)"
  note R = Reconcile_found [where flt=flt and req=req and w=w and tc=tc, OF fetched found,
      of lib now]
  note R' = Reconcile_found [where flt=flt' and req=req and w=w and tc=tc, OF fetched' found,
      of lib now]
  have w2: "trace (?w2 f) = trace w @
      [Ev_Get_TracingConfig req,
       Ev_Status_Update req (Status ?tc1) (f (Call_Status_Update ''Pending'') = None),
       Ev_List_Pods ?ns]"
    "configmaps (?w2 f) = configmaps w" "deployments (?w2 f) = deployments w"
    "pods (?w2 f) = pods w" for f
    using key by (simp_all add: Status_Update_fields traced_fields tc_key_def)
  have w1: "trace (?w1 f) = trace w @
      [Ev_Get_TracingConfig req,
       Ev_Status_Update req (Status ?tc1) (f (Call_Status_Update ''Pending'') = None)]"
    "configmaps (?w1 f) = configmaps w" "deployments (?w1 f) = deployments w" for f
    using key by (simp_all add: Status_Update_fields traced_fields tc_key_def)
  show ?thesis
  proof (cases "resolve_selector lib (Selector (Spec tc))")
    case (Inl m)
    then show ?thesis
      unfolding R R' by (simp add: fail_pass_fields new_events_def w1 calls)
  next
    case (Inr selector)
    show ?thesis
    proof (cases "flt Call_List_Pods")
      case (Some m)
      with Inr show ?thesis
        unfolding R R' by (simp add: fail_pass_fields new_events_def traced_fields w1 w2 calls)
    next
      case listed: None
      let ?opts = "(?ns, selector)"
      let ?items = "filter (\<lambda>p. listed (?ns, selector) (pod_namespace p) (pod_labels p)) (pods w)"
      have tail: "fst (report_Applied flt' now ?tc1 ?items (patch_Deployments flt' ?opts ?n w3')) =
            fst (report_Applied flt now ?tc1 ?items (patch_Deployments flt ?opts ?n w3)) \<and>
          drop 2 (drop (length (trace w))
            (trace (snd (report_Applied flt' now ?tc1 ?items (patch_Deployments flt' ?opts ?n w3'))))) =
          drop 2 (drop (length (trace w))
            (trace (snd (report_Applied flt now ?tc1 ?items (patch_Deployments flt ?opts ?n w3))))) \<and>
          configmaps (snd (report_Applied flt' now ?tc1 ?items (patch_Deployments flt' ?opts ?n w3'))) =
            configmaps (snd (report_Applied flt now ?tc1 ?items (patch_Deployments flt ?opts ?n w3))) \<and>
          deployments (snd (report_Applied flt' now ?tc1 ?items (patch_Deployments flt' ?opts ?n w3'))) =
            deployments (snd (report_Applied flt now ?tc1 ?items (patch_Deployments flt ?opts ?n w3)))"
        if "trace w3' = trace (?w2 flt') @ es" "trace w3 = trace (?w2 flt) @ es"
          "configmaps w3' = configmaps w3" "deployments w3' = deployments w3"
        for w3 w3' :: "('f, 'sel) world" and es
        using that
        by (simp add: report_Applied_fields patch_Deployments_fields
            patch_Deployments_deployments workload_writes_def calls w2
            split: option.splits)
      show ?thesis
      proof (cases "flt Call_Get_ConfigMap")
        case (Some m)
        with Inr listed show ?thesis
          unfolding R R'
          by (simp add: ensure_ConfigMap_paths Let_def calls new_events_def traced_fields w1 w2)
      next
        case got: None
        show ?thesis
        proof (cases "find (\<lambda>c. cm_key c = cm_key ?cm) (configmaps w)")
          case absent: None
          show ?thesis
          proof (cases "flt Call_Create_ConfigMap")
            case (Some m)
            with Inr listed got absent show ?thesis
              unfolding R R'
              by (simp add: ensure_ConfigMap_paths Let_def calls new_events_def traced_fields w1 w2
                  fail_pass_fields)
          next
            case None
            let ?w3 = "\<lambda>f. traced (Ev_Create_ConfigMap ?cm True)
                ((traced (Ev_Get_ConfigMap (cm_key ?cm)) (?w2 f))
                   \<lparr>configmaps := configmaps (?w2 f) @ [?cm]\<rparr>)"
            have e: "ensure_ConfigMap flt ?tc1 ?cm (?w2 flt) = Inr (?w3 flt)"
              "ensure_ConfigMap flt' ?tc1 ?cm (?w2 flt') = Inr (?w3 flt')"
              using got None absent by (simp_all add: ensure_ConfigMap_paths Let_def w2 calls)
            have t: "trace (?w3 f) = trace (?w2 f) @
                [Ev_Get_ConfigMap (cm_key ?cm), Ev_Create_ConfigMap ?cm True]"
              "configmaps (?w3 f) = configmaps w @ [?cm]" "deployments (?w3 f) = deployments w"
              for f
              by (simp_all add: traced_fields w1 w2)
            have c: "configmaps (?w3 flt') = configmaps (?w3 flt)"
              "deployments (?w3 flt') = deployments (?w3 flt)"
              by (simp_all only: t)
            note T = tail [OF t(1) [of flt'] t(1) [of flt] c]
            show ?thesis
              unfolding R R' new_events_def using Inr listed e T
              by (simp add: calls)
          qed
        next
          case (Some existing)
          let ?c = "existing\<lparr>Data := Data ?cm\<rparr>"
          show ?thesis
          proof (cases "flt Call_Update_ConfigMap")
            case failed: (Some m)
            with Inr listed got Some show ?thesis
              unfolding R R'
              by (simp add: ensure_ConfigMap_paths Let_def calls new_events_def traced_fields w1 w2
                  fail_pass_fields)
          next
            case None
            let ?w3 = "\<lambda>f. traced (Ev_Update_ConfigMap ?c True)
                ((traced (Ev_Get_ConfigMap (cm_key ?cm)) (?w2 f))
                   \<lparr>configmaps := put_configmap ?c (configmaps (?w2 f))\<rparr>)"
            have e: "ensure_ConfigMap flt ?tc1 ?cm (?w2 flt) = Inr (?w3 flt)"
              "ensure_ConfigMap flt' ?tc1 ?cm (?w2 flt') = Inr (?w3 flt')"
              using got None Some by (simp_all add: ensure_ConfigMap_paths Let_def w2 calls)
            have t: "trace (?w3 f) = trace (?w2 f) @
                [Ev_Get_ConfigMap (cm_key ?cm), Ev_Update_ConfigMap ?c True]"
              "configmaps (?w3 f) = put_configmap ?c (configmaps w)"
              "deployments (?w3 f) = deployments w" for f
              by (simp_all add: traced_fields w1 w2)
            have c: "configmaps (?w3 flt') = configmaps (?w3 flt)"
              "deployments (?w3 flt') = deployments (?w3 flt)"
              by (simp_all only: t)
            note T = tail [OF t(1) [of flt'] t(1) [of flt] c]
            show ?thesis
              unfolding R R' new_events_def using Inr listed e T
              by (simp add: calls)
          qed
        qed
      qed
    qed
  qed
qed

text \<open>
  C7, as the code has it. A pass that finds the policy begins with two calls, the read of
  the policy and a status update with phase \<^verbatim>\<open>Pending\<close> and the message
  \<^verbatim>\<open>Processing tracing configuration\<close>; no config map and no deployment has been written
  by then. When that update succeeds, the store holds \<^verbatim>\<open>Pending\<close> for the policy from
  then on: the calls that follow contain no status update except, possibly, the very last
  call of the pass, so every write of a config map or of a deployment is made while the
  store holds \<^verbatim>\<open>Pending\<close>. When the update fails, the store keeps the policies as they
  were, and the pass goes on all the same: whatever the outcome of that update, the pass
  returns the same result, makes the same further calls and leaves the same config maps
  and deployments.
\<close>

theorem pending_before_mutation:
  fixes tc :: "('f, 'sel) TracingConfig" and w :: "('f, 'sel) world"
    and lib :: "('f, 'sel) library" and flt :: faults and now :: nat and req :: object_key
  defines "pending \<equiv>
     (Status tc)\<lparr>Phase := ''Pending'', Message := ''Processing tracing configuration''\<rparr>"
  defines "w1 \<equiv> snd (Status_Update flt (tc\<lparr>Status := pending\<rparr>)
                        (snd (Get_TracingConfig flt req w)))"
  defines "final \<equiv> snd (Reconcile lib flt now req w)"
  assumes fetched: "flt Call_Get_TracingConfig = None"
    and found: "find (\<lambda>t. tc_key t = req) (tracingconfigs w) = Some tc"
  shows "new_events w w1 =
           [Ev_Get_TracingConfig req,
            Ev_Status_Update req pending (flt (Call_Status_Update ''Pending'') = None)] \<and>
         configmaps w1 = configmaps w \<and> deployments w1 = deployments w \<and>
         (flt (Call_Status_Update ''Pending'') = None \<longrightarrow> stored_status req w1 = Some pending) \<and>
         (flt (Call_Status_Update ''Pending'') \<noteq> None \<longrightarrow> tracingconfigs w1 = tracingconfigs w) \<and>
         (\<exists>body tail. trace final = trace w1 @ body @ tail \<and>
            \<not> list_ex is_status_update body \<and>
            (tail = [] \<or> (\<exists>st written. tail = [Ev_Status_Update req st written]))) \<and>
         (\<forall>x. fst (Reconcile lib (flt(Call_Status_Update ''Pending'' := x)) now req w) =
                fst (Reconcile lib flt now req w) \<and>
              drop 2 (new_events w
                (snd (Reconcile lib (flt(Call_Status_Update ''Pending'' := x)) now req w))) =
                drop 2 (new_events w final) \<and>
              configmaps (snd (Reconcile lib (flt(Call_Status_Update ''Pending'' := x)) now req w)) =
                configmaps final \<and>
              deployments (snd (Reconcile lib (flt(Call_Status_Update ''Pending'' := x)) now req w)) =
                deployments final)"
proof -
  let ?tc1 = "tc\<lparr>Status := pending\<rparr>"
  let ?ns = "if Namespace (Spec tc) = [] then tc_namespace tc else Namespace (Spec tc)"
  let ?n = "tc_name tc @ ''-tracing-config''"
  let ?cm = "\<lparr>cm_namespace = ?ns, cm_name = ?n, cm_labels = [],
              Data = config_data (Sprintf_2f lib) (Spec tc)\<rparr>"
  let ?w2 = "traced (Ev_List_Pods ?ns) w1"
  have key: "tc_key ?tc1 = req" using found [THEN found_key] by (simp add: tc_key_def)
  have G: "Get_TracingConfig flt req w = (Inr tc, traced (Ev_Get_TracingConfig req) w)"
    using fetched found by (rule Get_TracingConfig_found)
  have w1: "w1 = snd (Status_Update flt ?tc1 (traced (Ev_Get_TracingConfig req) w))"
    by (simp add: w1_def G)
  have t1: "trace w1 = trace w @
      [Ev_Get_TracingConfig req,
       Ev_Status_Update req pending (flt (Call_Status_Update ''Pending'') = None)]"
    using key by (simp add: w1 Status_Update_fields traced_fields pending_def)
  have first: "new_events w w1 =
      [Ev_Get_TracingConfig req,
       Ev_Status_Update req pending (flt (Call_Status_Update ''Pending'') = None)]"
    by (simp add: new_events_def t1)
  have untouched: "configmaps w1 = configmaps w" "deployments w1 = deployments w"
    by (simp_all add: w1 Status_Update_fields traced_fields)
  have stored: "stored_status req w1 = Some pending"
    if "flt (Call_Status_Update ''Pending'') = None"
    using that stored_after_put [OF found key]
    by (simp add: stored_status_def w1 Status_Update_fields traced_fields pending_def)
  have kept: "tracingconfigs w1 = tracingconfigs w"
    if "flt (Call_Status_Update ''Pending'') \<noteq> None"
    using that
    by (cases "flt (Call_Status_Update ''Pending'')")
       (simp_all add: w1 Status_Update_fields traced_fields pending_def)
  note R = Reconcile_found [where flt=flt and req=req and w=w and tc=tc, OF fetched found,
      of lib now, folded pending_def, folded w1]
  have shape: "\<exists>body tail. trace final = trace w1 @ body @ tail \<and>
      \<not> list_ex is_status_update body \<and>
      (tail = [] \<or> (\<exists>st written. tail = [Ev_Status_Update req st written]))"
  proof (cases "resolve_selector lib (Selector (Spec tc))")
    case (Inl m)
    then have "\<exists>st written. trace final = trace w1 @ [] @ [Ev_Status_Update req st written]"
      unfolding final_def R using key by (simp add: fail_pass_fields)
    then obtain st written where
      "trace final = trace w1 @ [] @ [Ev_Status_Update req st written]" by blast
    then show ?thesis
      by (intro exI [of _ "[]"] exI [of _ "[Ev_Status_Update req st written]"]) simp
  next
    case (Inr selector)
    show ?thesis
    proof (cases "flt Call_List_Pods")
      case (Some m)
      with Inr have "\<exists>st written. trace final =
          trace w1 @ [Ev_List_Pods ?ns] @ [Ev_Status_Update req st written]"
        unfolding final_def R using key by (simp add: fail_pass_fields traced_fields)
      then obtain st written where
        "trace final = trace w1 @ [Ev_List_Pods ?ns] @ [Ev_Status_Update req st written]"
        by blast
      then show ?thesis
        by (intro exI [of _ "[Ev_List_Pods ?ns]"] exI [of _ "[Ev_Status_Update req st written]"])
           simp
    next
      case None
      show ?thesis
      proof (cases "ensure_ConfigMap flt ?tc1 ?cm ?w2")
        case (Inl returned)
        from ensure_ConfigMap_returned_shape [OF Inl] key obtain body tail
          where b: "trace (snd returned) = trace ?w2 @ body @ tail"
            "\<not> list_ex is_status_update body"
            "tail = [] \<or> (\<exists>st written. tail = [Ev_Status_Update req st written])"
          by auto
        from Inr None Inl have "final = snd returned"
          unfolding final_def R by simp
        with b(1) have "trace final = trace w1 @ (Ev_List_Pods ?ns # body) @ tail"
          by (simp add: traced_fields)
        with b(2,3) show ?thesis
          by (intro exI [of _ "Ev_List_Pods ?ns # body"] exI [of _ tail]) simp
      next
        case continued: (Inr w3)
        from ensure_ConfigMap_written_kind [OF continued] obtain e
          where e: "trace w3 = trace ?w2 @ [Ev_Get_ConfigMap (cm_key ?cm), e]"
            "\<not> is_status_update e" by blast
        let ?writes = "case flt Call_List_Deployments of
            None \<Rightarrow> workload_writes flt ?n
              (filter (\<lambda>d. listed (?ns, selector) (d_namespace d) (d_labels d)) (deployments w3))
          | Some m \<Rightarrow> []"
        let ?body = "[Ev_List_Pods ?ns, Ev_Get_ConfigMap (cm_key ?cm), e, Ev_List_Deployments ?ns]
            @ ?writes"
        have quiet: "\<not> list_ex is_status_update ?body"
          using e(2) workload_writes_no_status by (simp split: option.splits)
        from Inr None continued have "\<exists>st written. trace final =
            trace w1 @ ?body @ [Ev_Status_Update req st written]"
          unfolding final_def R using key
          by (simp add: report_Applied_fields patch_Deployments_fields e traced_fields)
        then obtain st written where
          "trace final = trace w1 @ ?body @ [Ev_Status_Update req st written]" by blast
        with quiet show ?thesis
          by (intro exI [of _ ?body] exI [of _ "[Ev_Status_Update req st written]"]) simp
      qed
    qed
  qed
  have same: "fst (Reconcile lib (flt(Call_Status_Update ''Pending'' := x)) now req w) =
        fst (Reconcile lib flt now req w) \<and>
      drop 2 (new_events w
        (snd (Reconcile lib (flt(Call_Status_Update ''Pending'' := x)) now req w))) =
        drop 2 (new_events w final) \<and>
      configmaps (snd (Reconcile lib (flt(Call_Status_Update ''Pending'' := x)) now req w)) =
        configmaps final \<and>
      deployments (snd (Reconcile lib (flt(Call_Status_Update ''Pending'' := x)) now req w)) =
        deployments final" for x
    unfolding final_def
    by (rule pending_outcome_irrelevant [where flt=flt and req=req and w=w and tc=tc,
          OF fetched found])
  from first untouched stored kept shape same show ?thesis by blast
qed

theorem pending_before_mutation_witness:
  "no_faults Call_Get_TracingConfig = None \<and>
   find (\<lambda>t. tc_key t = sample_req) (tracingconfigs stale_world) = Some stale_policy \<and>
   stored_status sample_req
     (snd (Status_Update no_faults
        (stale_policy\<lparr>Status := (Status stale_policy)
           \<lparr>Phase := ''Pending'', Message := ''Processing tracing configuration''\<rparr>\<rparr>)
        (snd (Get_TracingConfig no_faults sample_req stale_world)))) =
     Some \<lparr>Phase = ''Pending'', Message = ''Processing tracing configuration'',
           AppliedAt = Some 1, TargetPods = []\<rparr> \<and>
   fst (Reconcile sample_library (no_faults(Call_Status_Update ''Pending'' := Some ''conflict''))
          7 sample_req stale_world) =
     fst (Reconcile sample_library no_faults 7 sample_req stale_world) \<and>
   deployments
     (snd (Reconcile sample_library (no_faults(Call_Status_Update ''Pending'' := Some ''conflict''))
             7 sample_req stale_world)) =
     deployments (snd (Reconcile sample_library no_faults 7 sample_req stale_world))"
proof -
  have h1: "no_faults Call_Get_TracingConfig = None"
    by (simp add: no_faults_def)
  have h2: "find (\<lambda>t. tc_key t = sample_req) (tracingconfigs stale_world) = Some stale_policy"
    by (simp add: sample_defs tc_key_def)
  have c: "Status stale_policy =
      \<lparr>Phase = ''Applied'', Message = ''Tracing configuration applied to 0 pods'',
       AppliedAt = Some 1, TargetPods = []\<rparr>"
    "no_faults (Call_Status_Update ''Pending'') = None"
    by (simp_all add: sample_defs)
  from pending_before_mutation [where flt=no_faults and req=sample_req and w=stale_world
      and tc=stale_policy and lib=sample_library and now=7, OF h1 h2]
  have "stored_status sample_req
     (snd (Status_Update no_faults
        (stale_policy\<lparr>Status := (Status stale_policy)
           \<lparr>Phase := ''Pending'', Message := ''Processing tracing configuration''\<rparr>\<rparr>)
        (snd (Get_TracingConfig no_faults sample_req stale_world)))) =
     Some \<lparr>Phase = ''Pending'', Message = ''Processing tracing configuration'',
           AppliedAt = Some 1, TargetPods = []\<rparr> \<and>
   fst (Reconcile sample_library (no_faults(Call_Status_Update ''Pending'' := Some ''conflict''))
          7 sample_req stale_world) =
     fst (Reconcile sample_library no_faults 7 sample_req stale_world) \<and>
   deployments
     (snd (Reconcile sample_library (no_faults(Call_Status_Update ''Pending'' := Some ''conflict''))
             7 sample_req stale_world)) =
     deployments (snd (Reconcile sample_library no_faults 7 sample_req stale_world))"
    using c by (elim conjE) simp
  with h1 h2 show ?thesis by blast
qed

text \<open>
  The claim C7 as it stands fails when the status update with phase \<^verbatim>\<open>Pending\<close> fails:
  lines 167-169 log the failure and go on. On the sample cluster, with a policy that an
  earlier pass left \<^verbatim>\<open>Applied\<close> and with every status update failing, the pass creates the
  config map and writes three deployments while the store never holds \<^verbatim>\<open>Pending\<close>: it
  keeps the old status to the end.
\<close>

theorem mutation_without_pending:
  "new_events stale_world
     (snd (Reconcile sample_library status_updates_fail 7 sample_req stale_world)) ! 1 =
     Ev_Status_Update sample_req
       \<lparr>Phase = ''Pending'', Message = ''Processing tracing configuration'',
        AppliedAt = Some 1, TargetPods = []\<rparr> False \<and>
   list_ex config_written
     (new_events stale_world
        (snd (Reconcile sample_library status_updates_fail 7 sample_req stale_world))) \<and>
   map (\<lambda>e. case e of Ev_Update_Deployment d ok \<Rightarrow> (d_name d, ok) | _ \<Rightarrow> ([], False))
     (filter is_workload_write
        (new_events stale_world
           (snd (Reconcile sample_library status_updates_fail 7 sample_req stale_world)))) =
     [(''api'', True), (''worker'', True), (''batch'', True)] \<and>
   stored_status sample_req
     (snd (Reconcile sample_library status_updates_fail 7 sample_req stale_world)) =
     Some \<lparr>Phase = ''Applied'', Message = ''Tracing configuration applied to 0 pods'',
           AppliedAt = Some 1, TargetPods = []\<rparr>"
  by (simp add: sample_defs pass_defs)

end
